theory Spec2Isabelle
  imports Complex_Main
begin

chapter \<open>The shadow renderer as functions\<close>

text \<open>
  The definitions of this chapter translate \<^verbatim>\<open>src/unnamed/part_001\<close> (the engine's
  \<^verbatim>\<open>ShadowRenderer\<close>) and the constants it reads from \<^verbatim>\<open>src/unnamed/part_002\<close>.
  Objects that the renderer mutates are records that a function takes and returns
  updated; module-level variables are the fields of \<open>module_state\<close>. A field
  \<^verbatim>\<open>_name\<close> of the source is written \<open>name\<close>.
\<close>

section \<open>Numbers\<close>

text \<open>
  The renderer computes with JavaScript numbers. They are modelled by the reals:
  rounding, overflow and underflow of IEEE doubles are not part of the model, and a
  function is only claimed to agree with the source where the source divides by a
  non-zero number and raises a positive base to a power. The one place where the
  renderer's arithmetic leaves the reals on an input it can be given, the quotient
  \<open>0 / 0\<close> in \<open>gauss\<close>, is modelled: a value that may be NaN is a \<open>real option\<close>,
  \<open>None\<close> standing for NaN.
\<close>

definition num_add :: "real option \<Rightarrow> real option \<Rightarrow> real option" where
  \<comment> \<open>\<open>a + b\<close> on numbers that may be NaN\<close>
  "num_add a b = (case (a, b) of (Some u, Some v) \<Rightarrow> Some (u + v) | _ \<Rightarrow> None)"

definition num_div :: "real option \<Rightarrow> real option \<Rightarrow> real option" where
  \<comment> \<open>\<open>a / b\<close> on numbers that may be NaN. A quotient by zero is not a real
      (NaN or an infinity): \<open>gaussWeights\<close> never takes one with a non-NaN divisor,
      see \<open>gauss_total_pos\<close>.\<close>
  "num_div a b =
     (case (a, b) of
        (Some u, Some v) \<Rightarrow> (if v = 0 then None else Some (u / v))
      | _ \<Rightarrow> None)"

definition num_sum :: "real option list \<Rightarrow> real option" where
  \<comment> \<open>the sum of an array of numbers, left to right from 0\<close>
  "num_sum vs = fold (\<lambda>v s. num_add s v) vs (Some 0)"

section \<open>Constants\<close>

text \<open>From \<^verbatim>\<open>src/unnamed/part_002\<close> (the scene constants).\<close>

definition LIGHTTYPE_DIRECTIONAL :: nat where "LIGHTTYPE_DIRECTIONAL = 0"
definition LIGHTTYPE_OMNI :: nat where "LIGHTTYPE_OMNI = 1"
definition LIGHTTYPE_SPOT :: nat where "LIGHTTYPE_SPOT = 2"

definition SHADOW_PCF3 :: nat where "SHADOW_PCF3 = 0"
definition SHADOW_VSM8 :: nat where "SHADOW_VSM8 = 1"
definition SHADOW_VSM16 :: nat where "SHADOW_VSM16 = 2"
definition SHADOW_VSM32 :: nat where "SHADOW_VSM32 = 3"
definition SHADOW_PCF5 :: nat where "SHADOW_PCF5 = 4"
definition SHADOW_PCF1 :: nat where "SHADOW_PCF1 = 5"

definition BLUR_BOX :: nat where "BLUR_BOX = 0"
definition BLUR_GAUSSIAN :: nat where "BLUR_GAUSSIAN = 1"

definition SHADOWUPDATE_NONE :: nat where "SHADOWUPDATE_NONE = 0"
definition SHADOWUPDATE_THISFRAME :: nat where "SHADOWUPDATE_THISFRAME = 1"
definition SHADOWUPDATE_REALTIME :: nat where "SHADOWUPDATE_REALTIME = 2"

text \<open>
  Modelled from the spec: the depth comparison functions of the graphics device
  (\<^verbatim>\<open>graphics/constants.js\<close> is not under \<^verbatim>\<open>src/\<close>); the renderer only names
  \<^verbatim>\<open>FUNC_LESSEQUAL\<close>, the "less-or-equal" comparator.
\<close>

datatype cmp_func =
  FUNC_NEVER | FUNC_LESS | FUNC_EQUAL | FUNC_LESSEQUAL
  | FUNC_GREATER | FUNC_NOTEQUAL | FUNC_GREATEREQUAL | FUNC_ALWAYS

section \<open>Vectors, boxes and nodes\<close>

text \<open>
  Modelled from the spec: the engine's math and scene-graph classes (\<^verbatim>\<open>Vec3\<close>,
  \<^verbatim>\<open>Mat4\<close>, \<^verbatim>\<open>BoundingBox\<close>, \<^verbatim>\<open>GraphNode\<close>) are not under \<^verbatim>\<open>src/\<close>; only the
  operations the shadow renderer calls are modelled, with their usual meaning. The
  fields \<^verbatim>\<open>x\<close>, \<^verbatim>\<open>y\<close>, \<^verbatim>\<open>z\<close> of a \<^verbatim>\<open>Vec3\<close> are \<open>vx\<close>, \<open>vy\<close>, \<open>vz\<close>, and its methods
  \<^verbatim>\<open>add\<close>, \<^verbatim>\<open>sub\<close>, \<^verbatim>\<open>mulScalar\<close>, \<^verbatim>\<open>dot\<close>, \<^verbatim>\<open>length\<close> carry the prefix \<open>v\<close>. The
  methods of the source work in place; here they return the new vector.
\<close>

record vec3 =
  vx :: real
  vy :: real
  vz :: real

definition vec :: "real \<Rightarrow> real \<Rightarrow> real \<Rightarrow> vec3" where
  "vec a b c = \<lparr>vx = a, vy = b, vz = c\<rparr>"

definition vadd :: "vec3 \<Rightarrow> vec3 \<Rightarrow> vec3" where
  "vadd a b = vec (vx a + vx b) (vy a + vy b) (vz a + vz b)"

definition vsub :: "vec3 \<Rightarrow> vec3 \<Rightarrow> vec3" where
  "vsub a b = vec (vx a - vx b) (vy a - vy b) (vz a - vz b)"

definition vmulScalar :: "vec3 \<Rightarrow> real \<Rightarrow> vec3" where
  "vmulScalar a s = vec (vx a * s) (vy a * s) (vz a * s)"

definition vdot :: "vec3 \<Rightarrow> vec3 \<Rightarrow> real" where
  "vdot a b = vx a * vx b + vy a * vy b + vz a * vz b"

definition vlength :: "vec3 \<Rightarrow> real" where
  "vlength a = sqrt (vx a * vx a + vy a * vy a + vz a * vz a)"

text \<open>
  An axis-aligned bounding box, by its minimum and maximum corners (\<^verbatim>\<open>getMin\<close>,
  \<^verbatim>\<open>getMax\<close>). \<^verbatim>\<open>a.copy(b)\<close> makes \<open>a\<close> equal to \<open>b\<close>; \<^verbatim>\<open>a.add(b)\<close> makes \<open>a\<close> the
  smallest box that contains both.
\<close>

record BoundingBox =
  getMin :: vec3
  getMax :: vec3

definition bb_add :: "BoundingBox \<Rightarrow> BoundingBox \<Rightarrow> BoundingBox" where
  "bb_add a b =
     \<lparr>getMin = vec (min (vx (getMin a)) (vx (getMin b)))
                    (min (vy (getMin a)) (vy (getMin b)))
                    (min (vz (getMin a)) (vz (getMin b))),
      getMax = vec (max (vx (getMax a)) (vx (getMax b)))
                    (max (vy (getMax a)) (vy (getMax b)))
                    (max (vz (getMax a)) (vz (getMax b)))\<rparr>"

text \<open>
  A graph node without parent and with unit scale, as the node of a shadow camera is:
  its position and the three axes of its rotation. \<^verbatim>\<open>right\<close> and \<^verbatim>\<open>up\<close> are the
  node's local X and Y axes, \<^verbatim>\<open>forward\<close> is the negated local Z axis.
  \<^verbatim>\<open>translateLocal(x, y, z)\<close> moves the node by the offset taken in its local frame.
  \<open>worldToLocal\<close> is the action on a point of the inverted world transform
  (\<^verbatim>\<open>getWorldTransform().invert()\<close> followed by \<^verbatim>\<open>transformPoint\<close>) for a node whose
  axes are orthonormal: the point's coordinates in the node's frame.
\<close>

record graphNode =
  position :: vec3
  right :: vec3
  up :: vec3
  forward :: vec3

definition translateLocal :: "graphNode \<Rightarrow> real \<Rightarrow> real \<Rightarrow> real \<Rightarrow> graphNode" where
  "translateLocal n a b c =
     n\<lparr>position :=
         vadd (position n)
              (vadd (vadd (vmulScalar (right n) a) (vmulScalar (up n) b))
                    (vmulScalar (forward n) (- c)))\<rparr>"

definition worldToLocal :: "graphNode \<Rightarrow> vec3 \<Rightarrow> vec3" where
  "worldToLocal n p =
     (let d = vsub p (position n)
      in vec (vdot d (right n)) (vdot d (up n)) (- vdot d (forward n)))"

section \<open>The objects of the renderer\<close>

text \<open>
  The fields of a light that the shadow renderer reads or writes.
  \<open>shadowCascadeDistances\<close> is the array \<^verbatim>\<open>light._shadowCascadeDistances\<close>; it is
  allocated by the light (not under \<^verbatim>\<open>src/\<close>) and the renderer never changes its
  length.
\<close>

record light =
  enabled :: bool
  castShadows :: bool
  shadowUpdateMode :: nat
  visibleThisFrame :: bool
  light_type :: nat
  shadowType :: nat
  numShadowFaces :: nat
  isVsm :: bool
  isPcf :: bool
  vsmBlurSize :: nat
  vsmBlurMode :: nat
  shadowBias :: real
  shadowResolution :: nat
  numCascades :: nat
  cascadeDistribution :: real
  shadowCascadeDistances :: "real list"
  shadowDistance :: real

text \<open>
  A mesh instance (a shadow caster): its \<^verbatim>\<open>cull\<close> flag, its \<^verbatim>\<open>visibleThisFrame\<close>
  flag (\<open>inst_visibleThisFrame\<close>), its depth sort key \<^verbatim>\<open>_key[SORTKEY_DEPTH]\<close> and its
  world-space bounding box.
\<close>

record meshInstance =
  cull :: bool
  inst_visibleThisFrame :: bool
  depthKey :: int
  aabb :: BoundingBox

record shadowCamera =
  node :: graphNode
  nearClip :: real
  farClip :: real
  orthoHeight :: real

text \<open>The module-level variables \<^verbatim>\<open>center\<close> and \<^verbatim>\<open>visibleSceneAabb\<close>.\<close>

record module_state =
  center :: vec3
  visibleSceneAabb :: BoundingBox

record depthRange =
  range_min :: real
  range_max :: real

section \<open>getDepthRange\<close>

text \<open>
  The eight corners that \<open>getDepthRange\<close> writes into the scratch array
  \<^verbatim>\<open>aabbPoints\<close>, in the array's order: every coordinate of every point is assigned
  before it is read, so the array is not part of the state.
\<close>

definition aabbPoints :: "vec3 \<Rightarrow> vec3 \<Rightarrow> vec3 list" where
  "aabbPoints aabbMin aabbMax =
     [vec (vx aabbMin) (vy aabbMax) (vz aabbMax),
      vec (vx aabbMin) (vy aabbMin) (vz aabbMax),
      vec (vx aabbMin) (vy aabbMax) (vz aabbMin),
      vec (vx aabbMin) (vy aabbMin) (vz aabbMin),
      vec (vx aabbMax) (vy aabbMax) (vz aabbMax),
      vec (vx aabbMax) (vy aabbMin) (vz aabbMax),
      vec (vx aabbMax) (vy aabbMax) (vz aabbMin),
      vec (vx aabbMax) (vy aabbMin) (vz aabbMin)]"

text \<open>
  The loop over the eight points: \<open>cameraViewMatrix\<close> is the matrix by its
  \<^verbatim>\<open>transformPoint\<close>; \<open>minz\<close> and \<open>maxz\<close> start from the source's sentinels.
\<close>

fun depthLoop :: "(vec3 \<Rightarrow> vec3) \<Rightarrow> vec3 list \<Rightarrow> real \<Rightarrow> real \<Rightarrow> real \<times> real" where
  "depthLoop cameraViewMatrix [] minz maxz = (minz, maxz)"
| "depthLoop cameraViewMatrix (p # ps) minz maxz =
     (let z = vz (cameraViewMatrix p)
      in depthLoop cameraViewMatrix ps (if z < minz then z else minz) (if z > maxz then z else maxz))"

definition getDepthRange :: "(vec3 \<Rightarrow> vec3) \<Rightarrow> vec3 \<Rightarrow> vec3 \<Rightarrow> depthRange" where
  "getDepthRange cameraViewMatrix aabbMin aabbMax =
     (let (minz, maxz) =
            depthLoop cameraViewMatrix (aabbPoints aabbMin aabbMax) 9999999999 (- 9999999999)
      in \<lparr>range_min = minz, range_max = maxz\<rparr>)"

section \<open>gauss and gaussWeights\<close>

text \<open>
  \<^verbatim>\<open>function gauss(x, sigma) { return Math.exp(-(x * x) / (2.0 * sigma * sigma)); }\<close>

  With \<open>sigma = 0\<close> the divisor is 0: for \<open>x = 0\<close> the quotient is \<open>-0 / 0\<close>, NaN, and
  so is its exponential; for \<open>x \<noteq> 0\<close> the quotient is \<open>-Infinity\<close>, whose exponential is 0.
\<close>

definition gauss :: "real \<Rightarrow> real \<Rightarrow> real option" where
  "gauss x sigma =
     (if 2 * sigma * sigma = 0
      then (if x * x = 0 then None else Some 0)
      else Some (exp (- (x * x) / (2 * sigma * sigma))))"

definition maxBlurSize :: nat where
  "maxBlurSize = 25"

text \<open>
  \<open>gaussWeights\<close>: the kernel size is clamped, the values are computed and summed in one
  loop over \<open>i = 0 .. kernelSize - 1\<close>, and a second loop divides each value by the sum.
  The kernel size is a natural number (a light's blur size); \<open>kernelSize - 1\<close> is taken
  in the reals, as the source does.
\<close>

definition gaussWeights :: "nat \<Rightarrow> real option list" where
  "gaussWeights kernelSize0 =
     (let kernelSize = (if kernelSize0 > maxBlurSize then maxBlurSize else kernelSize0);
          sigma = (real kernelSize - 1) / (2 * 3);
          halfWidth = (real kernelSize - 1) * 0.5;
          vals = map (\<lambda>i. gauss (real i - halfWidth) sigma) [0..<kernelSize];
          total = num_sum vals
      in map (\<lambda>v. num_div v total) vals)"

text \<open>The value the specification gives for index \<open>i\<close> of a kernel of size \<open>k\<close>,
  before normalisation.\<close>

definition gaussValue :: "nat \<Rightarrow> nat \<Rightarrow> real" where
  "gaussValue k i =
     (let sigma = (real k - 1) / 6; halfWidth = (real k - 1) / 2
      in exp (- ((real i - halfWidth)\<^sup>2) / (2 * sigma\<^sup>2)))"

section \<open>cullShadowCasters\<close>

text \<open>
  \<^verbatim>\<open>visible[count] = meshInstance\<close> on a JavaScript array replaces the element at an
  index below the length and appends at the index equal to the length. (The loop
  keeps \<open>count\<close> at most the length, so no index beyond it is written.)
\<close>

definition js_assign :: "'a list \<Rightarrow> nat \<Rightarrow> 'a \<Rightarrow> 'a list" where
  "js_assign xs i v = (if i < length xs then xs[i := v] else xs @ [v])"

text \<open>
  The loop of \<open>cullShadowCasters\<close>. \<open>isVisible\<close> is \<^verbatim>\<open>meshInstance._isVisible(camera)\<close>
  for the camera of the call (the mesh instance class is not under \<^verbatim>\<open>src/\<close>, so the
  test is a parameter). A mesh instance is an object: setting its
  \<^verbatim>\<open>visibleThisFrame\<close> changes the element of \<open>meshInstances\<close>, which the loop returns
  updated, and the reference stored in \<open>visible\<close>.
\<close>

definition markVisible :: "meshInstance \<Rightarrow> meshInstance" where
  \<comment> \<open>\<^verbatim>\<open>meshInstance.visibleThisFrame = true\<close>\<close>
  "markVisible meshInstance = meshInstance\<lparr>inst_visibleThisFrame := True\<rparr>"

fun cullLoop ::
  "(meshInstance \<Rightarrow> bool) \<Rightarrow> meshInstance list \<Rightarrow> meshInstance list \<Rightarrow> nat
     \<Rightarrow> meshInstance list \<times> meshInstance list \<times> nat" where
  "cullLoop isVisible [] visible count = ([], visible, count)"
| "cullLoop isVisible (meshInstance # rest) visible count =
     (if \<not> cull meshInstance \<or> isVisible meshInstance
      then (let marked = markVisible meshInstance;
                (rest', visible', count') =
                   cullLoop isVisible rest (js_assign visible count marked) (count + 1)
            in (marked # rest', visible', count'))
      else (let (rest', visible', count') = cullLoop isVisible rest visible count
            in (meshInstance # rest', visible', count')))"

text \<open>
  Modelled from the spec: \<^verbatim>\<open>this.forwardRenderer.depthSortCompare\<close> (the forward
  renderer is not under \<^verbatim>\<open>src/\<close>), the comparator of the sort. It orders by the depth
  key \<^verbatim>\<open>_key[SORTKEY_DEPTH]\<close>, skinned casters first: \<^verbatim>\<open>getDepthKey\<close> gives a skinned
  caster the key 10 plus the number of its opacity channel and any other caster that
  number alone, so the larger key comes first. Casters with equal keys are kept in the
  order of the list.
\<close>

definition depthSort :: "meshInstance list \<Rightarrow> meshInstance list" where
  "depthSort visible = sort_key (\<lambda>m. - depthKey m) visible"

text \<open>
  \<^verbatim>\<open>visible.length = count\<close> truncates the array;
  \<^verbatim>\<open>visible.sort(this.forwardRenderer.depthSortCompare)\<close> sorts it.
\<close>

definition cullShadowCasters ::
  "(meshInstance \<Rightarrow> 'cam \<Rightarrow> bool) \<Rightarrow> meshInstance list \<Rightarrow> meshInstance list \<Rightarrow> 'cam
     \<Rightarrow> meshInstance list \<times> meshInstance list" where
  "cullShadowCasters isVisible meshInstances visible camera =
     (let (meshInstances', visible', count) =
            cullLoop (\<lambda>m. isVisible m camera) meshInstances visible 0
      in (meshInstances', depthSort (take count visible')))"

section \<open>generateSplitDistances\<close>

text \<open>
  Modelled from the spec: \<^verbatim>\<open>math.lerp\<close> (\<^verbatim>\<open>math/math.js\<close> is not under \<^verbatim>\<open>src/\<close>), the
  linear interpolation between \<open>a\<close> and \<open>b\<close>.
\<close>

definition lerp :: "real \<Rightarrow> real \<Rightarrow> real \<Rightarrow> real" where
  "lerp a b alpha = a + (b - a) * alpha"

text \<open>The body of the loop computes \<open>dist\<close> for the index \<open>i\<close>; \<^verbatim>\<open>**\<close> on a positive
  base is \<open>powr\<close>.\<close>

definition splitDistance :: "light \<Rightarrow> real \<Rightarrow> real \<Rightarrow> nat \<Rightarrow> real" where
  "splitDistance l nearDist farDist i =
     (let fraction = real i / real (numCascades l);
          linearDist = nearDist + (farDist - nearDist) * fraction;
          logDist = nearDist * (farDist / nearDist) powr fraction
      in lerp linearDist logDist (cascadeDistribution l))"

text \<open>
  \<^verbatim>\<open>light._shadowCascadeDistances[i - 1] = dist\<close>. The array has a fixed length: a write
  past its end would be dropped (\<open>list_update\<close> does the same); the theorems below take
  \<open>numCascades\<close> at most the length, where no such write happens.
\<close>

definition setSplit :: "light \<Rightarrow> real \<Rightarrow> real \<Rightarrow> nat \<Rightarrow> real list \<Rightarrow> real list" where
  "setSplit l nearDist farDist i ds = ds[i - 1 := splitDistance l nearDist farDist i]"

definition generateSplitDistances :: "light \<Rightarrow> real \<Rightarrow> real \<Rightarrow> light" where
  "generateSplitDistances l nearDist farDist =
     l\<lparr>shadowCascadeDistances :=
          fold (setSplit l nearDist farDist) [1..<numCascades l]
               (map (\<lambda>_. farDist) (shadowCascadeDistances l))\<rparr>"

section \<open>cullDirectional\<close>

text \<open>
  What \<open>cullDirectional\<close> reads from code that is not under \<^verbatim>\<open>src/\<close>, as
  parameters: the viewer camera's near clip distance, \<^verbatim>\<open>Frustum.getPoints\<close> for the
  viewer camera (the eight corners of the frustum slice between two distances), the
  camera's world transform (by its \<^verbatim>\<open>transformPoint\<close>), the light node's position,
  the axes of the shadow camera's node once it has the light's rotation and is rotated
  by \<^verbatim>\<open>rotateLocal(-90, 0, 0)\<close>, and the visibility test of a mesh instance against a
  shadow camera whose frustum is up to date.
\<close>

record dirEnv =
  cameraNearClip :: real
  getPoints :: "real \<Rightarrow> real \<Rightarrow> vec3 list"
  cameraWorldMat :: "vec3 \<Rightarrow> vec3"
  lightPosition :: vec3
  shadowRight :: vec3
  shadowUp :: vec3
  shadowForward :: vec3
  isVisible :: "meshInstance \<Rightarrow> shadowCamera \<Rightarrow> bool"

record lightRenderData =
  shadowCamera :: shadowCamera
  visibleCasters :: "meshInstance list"

text \<open>The near and far distance of a cascade's slice of the viewer frustum.\<close>

definition frustumNearDist :: "light \<Rightarrow> real \<Rightarrow> nat \<Rightarrow> real" where
  "frustumNearDist l nearDist cascade =
     (if cascade = 0 then nearDist else shadowCascadeDistances l ! (cascade - 1))"

definition frustumFarDist :: "light \<Rightarrow> nat \<Rightarrow> real" where
  "frustumFarDist l cascade = shadowCascadeDistances l ! cascade"

text \<open>The centre of the frustum points (their sum, scaled by 1/8) and the radius of
  the bounding sphere around it.\<close>

definition frustumCenter :: "vec3 list \<Rightarrow> vec3" where
  "frustumCenter frustumPoints =
     vmulScalar (fold (\<lambda>p c. vadd c p) frustumPoints (vec 0 0 0)) (1 / 8)"

definition frustumRadius :: "vec3 list \<Rightarrow> vec3 \<Rightarrow> real" where
  "frustumRadius frustumPoints c =
     fold (\<lambda>p radius. (let dist = vlength (vsub p c) in if dist > radius then dist else radius))
          frustumPoints 0"

text \<open>\<^verbatim>\<open>Math.ceil(p * sizeRatio) / sizeRatio\<close>, the snapped centre, and
  \<^verbatim>\<open>const sizeRatio = 0.25 * light._shadowResolution / radius\<close>.\<close>


definition snap :: "real \<Rightarrow> real \<Rightarrow> real" where
  "snap p sizeRatio = real_of_int \<lceil>p * sizeRatio\<rceil> / sizeRatio"

definition snapCenter :: "graphNode \<Rightarrow> vec3 \<Rightarrow> real \<Rightarrow> vec3" where
  "snapCenter shadowCamNode c sizeRatio =
     (let x = snap (vdot c (up shadowCamNode)) sizeRatio;
          y = snap (vdot c (right shadowCamNode)) sizeRatio;
          scaledUp = vmulScalar (up shadowCamNode) x;
          scaledRight = vmulScalar (right shadowCamNode) y;
          d = vdot c (forward shadowCamNode);
          scaledDir = vmulScalar (forward shadowCamNode) d
      in vadd (vadd scaledUp scaledRight) scaledDir)"

definition sizeRatio :: "light \<Rightarrow> real \<Rightarrow> real" where
  "sizeRatio l radius = 0.25 * real (shadowResolution l) / radius"

text \<open>
  The first half of the body of the cascade loop, up to the assignment of
  \<^verbatim>\<open>orthoHeight\<close>: the shadow camera's node takes the light's position and rotation,
  the centre and radius of the frustum slice are computed into the module-level
  \<^verbatim>\<open>center\<close>, the centre is snapped, and the camera is moved to the snapped centre
  and back by 1000000 along its local Z axis. (The render target and the viewport of
  the cascade are not modelled.)
\<close>

definition positionShadowCamera ::
  "dirEnv \<Rightarrow> light \<Rightarrow> nat \<Rightarrow> module_state \<Rightarrow> shadowCamera \<Rightarrow> module_state \<times> shadowCamera" where
  "positionShadowCamera env l cascade st shadowCam =
     (let nearDist = cameraNearClip env;
          shadowCamNode = \<lparr>position = lightPosition env, right = shadowRight env,
                           up = shadowUp env, forward = shadowForward env\<rparr>;
          frustumPoints =
            map (cameraWorldMat env)
                (take 8 (getPoints env (frustumNearDist l nearDist cascade) (frustumFarDist l cascade)));
          c = frustumCenter frustumPoints;
          radius = frustumRadius frustumPoints c;
          snapped = snapCenter shadowCamNode c (sizeRatio l radius);
          moved = translateLocal (shadowCamNode\<lparr>position := snapped\<rparr>) 0 0 1000000
      in (st\<lparr>center := snapped\<rparr>,
          shadowCam\<lparr>node := moved, nearClip := 0, farClip := 2000000, orthoHeight := radius\<rparr>))"

text \<open>The loop that finds the bounding box of the visible casters: the first caster's
  box is copied into \<^verbatim>\<open>visibleSceneAabb\<close>, every further one is added to it.\<close>

fun aabbLoop :: "meshInstance list \<Rightarrow> bool \<Rightarrow> BoundingBox \<Rightarrow> BoundingBox" where
  "aabbLoop [] emptyAabb box = box"
| "aabbLoop (meshInstance # rest) emptyAabb box =
     (if emptyAabb then aabbLoop rest False (aabb meshInstance)
      else aabbLoop rest False (bb_add box (aabb meshInstance)))"

text \<open>The second half of the body, after the culling: the depth range of
  \<^verbatim>\<open>visibleSceneAabb\<close> in the space of the shadow camera, and the camera's near and far
  plane moved to it.\<close>

definition tightenDepthRange ::
  "module_state \<Rightarrow> shadowCamera \<Rightarrow> meshInstance list \<Rightarrow> module_state \<times> shadowCamera" where
  "tightenDepthRange st shadowCam casters =
     (let box = aabbLoop casters True (visibleSceneAabb st);
          dr = getDepthRange (worldToLocal (node shadowCam)) (getMin box) (getMax box);
          moved = translateLocal (node shadowCam) 0 0 (range_max dr + 0.1)
      in (st\<lparr>visibleSceneAabb := box\<rparr>,
          shadowCam\<lparr>node := moved, farClip := range_max dr - range_min dr + 0.2\<rparr>))"

text \<open>One iteration of the cascade loop. \<open>renderData cascade\<close> is
  \<^verbatim>\<open>light.getRenderData(camera, cascade)\<close>.\<close>

definition cullCascade ::
  "dirEnv \<Rightarrow> light \<Rightarrow> nat
     \<Rightarrow> module_state \<times> meshInstance list \<times> (nat \<Rightarrow> lightRenderData)
     \<Rightarrow> module_state \<times> meshInstance list \<times> (nat \<Rightarrow> lightRenderData)" where
  "cullCascade env l cascade s =
     (let (st, drawCalls, renderData) = s;
          lightRenderData = renderData cascade;
          (st1, cam1) = positionShadowCamera env l cascade st (shadowCamera lightRenderData);
          (drawCalls1, casters) =
             cullShadowCasters (isVisible env) drawCalls (visibleCasters lightRenderData) cam1;
          (st2, cam2) = tightenDepthRange st1 cam1 casters
      in (st2, drawCalls1,
          renderData(cascade := \<lparr>shadowCamera = cam2, visibleCasters = casters\<rparr>)))"

definition cullDirectional ::
  "dirEnv \<Rightarrow> light \<Rightarrow> meshInstance list \<Rightarrow> module_state \<Rightarrow> (nat \<Rightarrow> lightRenderData)
     \<Rightarrow> light \<times> module_state \<times> meshInstance list \<times> (nat \<Rightarrow> lightRenderData)" where
  "cullDirectional env l drawCalls st renderData =
     (let l1 = l\<lparr>visibleThisFrame := True\<rparr>;
          l2 = generateSplitDistances l1 (cameraNearClip env) (shadowDistance l1);
          (st1, drawCalls1, renderData1) =
             fold (cullCascade env l2) [0..<numCascades l2] (st, drawCalls, renderData)
      in (l2, st1, drawCalls1, renderData1))"

section \<open>The render state\<close>

text \<open>
  Modelled from the spec: the graphics device (not under \<^verbatim>\<open>src/\<close>) by the state that
  the shadow renderer sets on it: \<^verbatim>\<open>setDepthBias\<close>, \<^verbatim>\<open>setDepthBiasValues\<close>,
  \<^verbatim>\<open>setBlending\<close>, \<^verbatim>\<open>setDepthWrite\<close>, \<^verbatim>\<open>setDepthTest\<close>, \<^verbatim>\<open>setDepthFunc\<close> and
  \<^verbatim>\<open>setColorWrite\<close> store their arguments.
\<close>

record graphicsDevice =
  webgl2 :: bool
  extStandardDerivatives :: bool
  depthBias :: bool
  depthBiasValues :: "real \<times> real"
  blending :: bool
  depthWrite :: bool
  depthTest :: bool
  depthFunc :: cmp_func
  colorWrite :: "bool \<times> bool \<times> bool \<times> bool"

text \<open>A shadow map of the cache, and the target of a blur pass.\<close>

record shadowMap =
  map_id :: nat
  map_resolution :: nat

datatype blurTarget = TempTarget shadowMap | OrigShadowMap

text \<open>
  What the renderer does to the device and the cache is recorded in order. A viewer
  camera is a number. \<open>RenderFace key face renderTargetIndex clearColorBuffer\<close> stands
  for the body of the face loop of \<open>render\<close> (the camera settings, the uniforms and
  the submission of the visible casters of the render data \<open>key, face\<close>);
  \<open>DrawQuad target pixelOffset\<close> is a blur pass into \<open>target\<close>.
\<close>

datatype event =
    SetupRenderState
  | RenderFace "nat option" nat nat bool
  | CacheGet shadowMap
  | DrawQuad blurTarget "real \<times> real"
  | CacheAdd shadowMap
  | RestoreRenderState

text \<open>
  The shadow renderer with the parts of the forward renderer and of the scene that it
  reads and writes: the device, \<^verbatim>\<open>scene.clusteredLightingEnabled\<close>,
  \<^verbatim>\<open>this.polygonOffset\<close> and the value of the uniform \<^verbatim>\<open>polygonOffsetId\<close>
  (\<open>None\<close> before it is first set), \<^verbatim>\<open>_shadowMapUpdates\<close>, the free shadow maps of
  the cache and the number of the next map it creates, the keys \<open>(isVsm8, blurMode,
  filterSize)\<close> of the cached blur shaders, and \<^verbatim>\<open>blurVsmWeights\<close>.
\<close>

record renderer =
  device :: graphicsDevice
  clusteredLightingEnabled :: bool
  polygonOffset :: "real \<times> real"
  polygonOffsetId :: "(real \<times> real) option"
  shadowMapUpdates :: nat
  shadowMapCache :: "shadowMap list"
  nextShadowMap :: nat
  blurVsmShader :: "(bool \<times> nat \<times> nat) list"
  blurVsmWeights :: "nat \<rightharpoonup> real option list"
  events :: "event list"

definition record_event :: "event \<Rightarrow> renderer \<Rightarrow> renderer" where
  "record_event e r = r\<lparr>events := events r @ [e]\<rparr>"

definition setPolygonOffset :: "real \<Rightarrow> renderer \<Rightarrow> renderer" where
  \<comment> \<open>\<^verbatim>\<open>polygonOffset[0] = v; polygonOffset[1] = v; polygonOffsetId.setValue(polygonOffset)\<close>\<close>
  "setPolygonOffset v r = r\<lparr>polygonOffset := (v, v), polygonOffsetId := Some (v, v)\<rparr>"

definition setupRenderState :: "renderer \<Rightarrow> light \<Rightarrow> renderer" where
  "setupRenderState r l =
     (let isClustered = clusteredLightingEnabled r;
          dev = device r;
          r1 = (if webgl2 dev then
                  (if light_type l = LIGHTTYPE_OMNI \<and> \<not> isClustered
                   then r\<lparr>device := dev\<lparr>depthBias := False\<rparr>\<rparr>
                   else r\<lparr>device := dev\<lparr>depthBias := True,
                                        depthBiasValues := (shadowBias l * - 1000, shadowBias l * - 1000)\<rparr>\<rparr>)
                else if extStandardDerivatives dev then
                  (if light_type l = LIGHTTYPE_OMNI
                   then setPolygonOffset 0 r
                   else setPolygonOffset (shadowBias l * - 1000) r)
                else r);
          dev1 = (device r1)\<lparr>blending := False, depthWrite := True, depthTest := True,
                            depthFunc := FUNC_LESSEQUAL\<rparr>;
          useShadowSampler =
            (if isClustered then isPcf l \<and> webgl2 dev
             else isPcf l \<and> webgl2 dev \<and> light_type l \<noteq> LIGHTTYPE_OMNI);
          dev2 = (if useShadowSampler then dev1\<lparr>colorWrite := (False, False, False, False)\<rparr>
                  else dev1\<lparr>colorWrite := (True, True, True, True)\<rparr>)
      in record_event SetupRenderState (r1\<lparr>device := dev2\<rparr>))"

definition restoreRenderState :: "renderer \<Rightarrow> renderer" where
  "restoreRenderState r =
     record_event RestoreRenderState
       (if webgl2 (device r) then r\<lparr>device := (device r)\<lparr>depthBias := False\<rparr>\<rparr>
        else if extStandardDerivatives (device r) then setPolygonOffset 0 r
        else r)"

section \<open>The blur of a variance shadow map\<close>

text \<open>
  Modelled from the spec: the shadow map cache (\<^verbatim>\<open>ShadowMapCache\<close> is not under
  \<^verbatim>\<open>src/\<close>). \<^verbatim>\<open>get\<close> takes a free map of the light's resolution out of the cache, or
  creates one when there is none; \<^verbatim>\<open>add\<close> puts a map back among the free ones.
\<close>

definition cacheGet :: "light \<Rightarrow> renderer \<Rightarrow> shadowMap \<times> renderer" where
  "cacheGet l r =
     (case find (\<lambda>m. map_resolution m = shadowResolution l) (shadowMapCache r) of
        Some m \<Rightarrow> (m, record_event (CacheGet m) (r\<lparr>shadowMapCache := remove1 m (shadowMapCache r)\<rparr>))
      | None \<Rightarrow>
          (let m = \<lparr>map_id = nextShadowMap r, map_resolution = shadowResolution l\<rparr>
           in (m, record_event (CacheGet m) (r\<lparr>nextShadowMap := nextShadowMap r + 1\<rparr>))))"

definition cacheAdd :: "light \<Rightarrow> shadowMap \<Rightarrow> renderer \<Rightarrow> renderer" where
  "cacheAdd l m r = record_event (CacheAdd m) (r\<lparr>shadowMapCache := shadowMapCache r @ [m]\<rparr>)"

text \<open>\<open>getVsmBlurShader\<close>: on a cache miss the weights of the filter size are computed
  and the shader is created and cached under its key.\<close>

definition getVsmBlurShader :: "bool \<Rightarrow> nat \<Rightarrow> nat \<Rightarrow> renderer \<Rightarrow> renderer" where
  "getVsmBlurShader isVsm8 blurMode filterSize r =
     (if (isVsm8, blurMode, filterSize) \<in> set (blurVsmShader r) then r
      else r\<lparr>blurVsmWeights := (blurVsmWeights r)(filterSize \<mapsto> gaussWeights filterSize),
             blurVsmShader := (isVsm8, blurMode, filterSize) # blurVsmShader r\<rparr>)"

definition applyVsmBlur :: "light \<Rightarrow> renderer \<Rightarrow> renderer" where
  "applyVsmBlur l r =
     (let (tempShadowMap, r1) = cacheGet l r;
          isVsm8 = (shadowType l = SHADOW_VSM8);
          blurMode = vsmBlurMode l;
          filterSize = vsmBlurSize l;
          r2 = getVsmBlurShader isVsm8 blurMode filterSize r1;
          r3 = record_event (DrawQuad (TempTarget tempShadowMap) (1 / real (shadowResolution l), 0)) r2;
          r4 = record_event (DrawQuad OrigShadowMap (0, 1 / real (shadowResolution l))) r3
      in cacheAdd l tempShadowMap r4)"

section \<open>render\<close>

definition setShadowCameraSettings :: "graphicsDevice \<Rightarrow> nat \<Rightarrow> nat \<Rightarrow> bool \<Rightarrow> bool" where
  \<comment> \<open>the value given to \<^verbatim>\<open>shadowCam.clearColorBuffer\<close>\<close>
  "setShadowCameraSettings dev shadowTy ty isClustered =
     (let hwPcf = (shadowTy = SHADOW_PCF5 \<or> (shadowTy = SHADOW_PCF3 \<and> webgl2 dev));
          hwPcf1 = (if ty = LIGHTTYPE_OMNI \<and> \<not> isClustered then False else hwPcf)
      in \<not> hwPcf1)"

definition renderFace :: "light \<Rightarrow> nat \<Rightarrow> nat \<Rightarrow> renderer \<Rightarrow> renderer" where
  "renderFace l camera face r =
     (let ty = light_type l;
          key = (if ty = LIGHTTYPE_DIRECTIONAL then Some camera else None);
          clearColorBuffer =
            setShadowCameraSettings (device r) (shadowType l) ty (clusteredLightingEnabled r);
          renderTargetIndex = (if ty = LIGHTTYPE_DIRECTIONAL then 0 else face)
      in record_event (RenderFace key face renderTargetIndex clearColorBuffer) r)"

text \<open>The body of \<open>render\<close> after the update mode has been switched.\<close>

definition renderPass :: "light \<Rightarrow> nat \<Rightarrow> renderer \<Rightarrow> renderer" where
  "renderPass l camera r =
     (let faceCount = numShadowFaces l;
          r1 = r\<lparr>shadowMapUpdates := shadowMapUpdates r + faceCount\<rparr>;
          r2 = setupRenderState r1 l;
          r3 = fold (renderFace l camera) [0..<faceCount] r2;
          r4 = (if isVsm l \<and> vsmBlurSize l > 1
                then (if \<not> clusteredLightingEnabled r3 \<or> light_type l = LIGHTTYPE_DIRECTIONAL
                      then applyVsmBlur l r3 else r3)
                else r3)
      in restoreRenderState r4)"

definition render :: "light \<Rightarrow> nat \<Rightarrow> renderer \<Rightarrow> light \<times> renderer" where
  "render l camera r =
     (if enabled l \<and> castShadows l \<and> shadowUpdateMode l \<noteq> SHADOWUPDATE_NONE \<and> visibleThisFrame l
      then (let l1 = (if shadowUpdateMode l = SHADOWUPDATE_THISFRAME
                      then l\<lparr>shadowUpdateMode := SHADOWUPDATE_NONE\<rparr> else l)
            in (l1, renderPass l1 camera r))
      else (l, r))"

section \<open>Example inputs\<close>

definition exampleLight :: light where
  "exampleLight =
     \<lparr>enabled = True, castShadows = True, shadowUpdateMode = SHADOWUPDATE_REALTIME,
      visibleThisFrame = True, light_type = LIGHTTYPE_DIRECTIONAL, shadowType = SHADOW_VSM16,
      numShadowFaces = 4, isVsm = True, isPcf = False, vsmBlurSize = 11,
      vsmBlurMode = BLUR_GAUSSIAN, shadowBias = 1 / 20, shadowResolution = 1024,
      numCascades = 4, cascadeDistribution = 1 / 2, shadowCascadeDistances = [0, 0, 0, 0],
      shadowDistance = 10001 / 10\<rparr>"

text \<open>The example light with a single cascade that reaches to distance 100.\<close>

definition singleCascadeLight :: light where
  "singleCascadeLight =
     exampleLight\<lparr>numShadowFaces := 1, numCascades := 1,
                   shadowCascadeDistances := [100, 100, 100, 100], shadowDistance := 100\<rparr>"

text \<open>A caster with the given \<open>cull\<close> flag and depth key, whose box spans \<open>[lo, hi]\<close> on
  every axis.\<close>

definition caster :: "bool \<Rightarrow> int \<Rightarrow> real \<Rightarrow> real \<Rightarrow> meshInstance" where
  "caster c k lo hi =
     \<lparr>cull = c, inst_visibleThisFrame = False, depthKey = k,
      aabb = \<lparr>getMin = vec lo lo lo, getMax = vec hi hi hi\<rparr>\<rparr>"

definition exampleDevice :: graphicsDevice where
  "exampleDevice =
     \<lparr>webgl2 = True, extStandardDerivatives = True, depthBias = False, depthBiasValues = (0, 0),
      blending = True, depthWrite = False, depthTest = False, depthFunc = FUNC_LESS,
      colorWrite = (True, True, True, True)\<rparr>"

definition exampleRenderer :: renderer where
  "exampleRenderer =
     \<lparr>device = exampleDevice, clusteredLightingEnabled = False, polygonOffset = (0, 0),
      polygonOffsetId = None, shadowMapUpdates = 0, shadowMapCache = [], nextShadowMap = 0,
      blurVsmShader = [], blurVsmWeights = Map.empty, events = []\<rparr>"

text \<open>A shadow camera at the origin that looks down the negative Z axis, and a module
  state as the module's initialisation leaves it (a zero vector, and the default box
  of half extents 0.5 around the origin).\<close>

definition exampleNode :: graphNode where
  "exampleNode = \<lparr>position = vec 0 0 0, right = vec 1 0 0, up = vec 0 1 0, forward = vec 0 0 (- 1)\<rparr>"

definition exampleCamera :: shadowCamera where
  "exampleCamera = \<lparr>node = exampleNode, nearClip = 0, farClip = 2000000, orthoHeight = 10\<rparr>"

definition exampleState :: module_state where
  "exampleState =
     \<lparr>center = vec 0 0 0,
      visibleSceneAabb = \<lparr>getMin = vec (- 1/2) (- 1/2) (- 1/2), getMax = vec (1/2) (1/2) (1/2)\<rparr>\<rparr>"

text \<open>A viewer camera at the origin that looks down the negative Z axis, with a frustum
  of constant cross-section; a light at height 10 whose shadow camera looks the same
  way; and render data that holds the example camera for every cascade. The
  visibility test lets a caster pass when its box reaches below the camera's height.\<close>

definition exampleEnv :: dirEnv where
  "exampleEnv =
     \<lparr>cameraNearClip = 1,
      getPoints = (\<lambda>n f. [vec (- 1) (- 1) (- n), vec 1 (- 1) (- n), vec 1 1 (- n), vec (- 1) 1 (- n),
                           vec (- 1) (- 1) (- f), vec 1 (- 1) (- f), vec 1 1 (- f), vec (- 1) 1 (- f)]),
      cameraWorldMat = (\<lambda>p. p),
      lightPosition = vec 0 10 0,
      shadowRight = vec 1 0 0, shadowUp = vec 0 1 0, shadowForward = vec 0 0 (- 1),
      isVisible = (\<lambda>m cam. vy (getMin (aabb m)) \<le> vy (position (node cam)))\<rparr>"

definition exampleRenderData :: "nat \<Rightarrow> lightRenderData" where
  "exampleRenderData = (\<lambda>cascade. \<lparr>shadowCamera = exampleCamera, visibleCasters = []\<rparr>)"





section \<open>Notions used in the statements\<close>

text \<open>The guard of \<open>render\<close>, the condition under which it blurs, the event of a face
  and the events of a blur, as \<open>render\<close> computes them from the renderer before the pass.\<close>

definition renderGuard :: "light \<Rightarrow> bool" where
  "renderGuard l \<longleftrightarrow>
     enabled l \<and> castShadows l \<and> shadowUpdateMode l \<noteq> SHADOWUPDATE_NONE \<and> visibleThisFrame l"

definition blurApplies :: "light \<Rightarrow> renderer \<Rightarrow> bool" where
  "blurApplies l r \<longleftrightarrow>
     isVsm l \<and> vsmBlurSize l > 1
     \<and> (\<not> clusteredLightingEnabled r \<or> light_type l = LIGHTTYPE_DIRECTIONAL)"

definition faceEvent :: "light \<Rightarrow> nat \<Rightarrow> renderer \<Rightarrow> nat \<Rightarrow> event" where
  "faceEvent l camera r face =
     RenderFace (if light_type l = LIGHTTYPE_DIRECTIONAL then Some camera else None) face
                (if light_type l = LIGHTTYPE_DIRECTIONAL then 0 else face)
                (setShadowCameraSettings (device r) (shadowType l) (light_type l)
                   (clusteredLightingEnabled r))"

definition blurEvents :: "light \<Rightarrow> renderer \<Rightarrow> event list" where
  "blurEvents l r =
     (let m = fst (cacheGet l r)
      in [CacheGet m,
          DrawQuad (TempTarget m) (1 / real (shadowResolution l), 0),
          DrawQuad OrigShadowMap (0, 1 / real (shadowResolution l)),
          CacheAdd m])"

text \<open>
  The union of the boxes of a list of casters, coordinate by coordinate; the depths
  (view-space Z) of the eight corners of a box in the frame of a node; and a node whose
  axes are orthonormal.
\<close>

definition unionAabb :: "meshInstance list \<Rightarrow> BoundingBox" where
  "unionAabb casters =
     \<lparr>getMin = vec (Min ((\<lambda>m. vx (getMin (aabb m))) ` set casters))
                    (Min ((\<lambda>m. vy (getMin (aabb m))) ` set casters))
                    (Min ((\<lambda>m. vz (getMin (aabb m))) ` set casters)),
      getMax = vec (Max ((\<lambda>m. vx (getMax (aabb m))) ` set casters))
                    (Max ((\<lambda>m. vy (getMax (aabb m))) ` set casters))
                    (Max ((\<lambda>m. vz (getMax (aabb m))) ` set casters))\<rparr>"

definition positionedCamera ::
  "dirEnv \<Rightarrow> light \<Rightarrow> nat \<Rightarrow> module_state \<Rightarrow> (nat \<Rightarrow> lightRenderData) \<Rightarrow> shadowCamera" where
  \<comment> \<open>the shadow camera of a cascade as the first half of the loop body leaves it\<close>
  "positionedCamera env l cascade st renderData =
     snd (positionShadowCamera env l cascade st (shadowCamera (renderData cascade)))"

definition cornerDepths :: "graphNode \<Rightarrow> BoundingBox \<Rightarrow> real list" where
  "cornerDepths n box =
     map (\<lambda>p. vz (worldToLocal n p)) (aabbPoints (getMin box) (getMax box))"

definition orthonormal :: "graphNode \<Rightarrow> bool" where
  "orthonormal n \<longleftrightarrow>
     vdot (right n) (right n) = 1 \<and> vdot (up n) (up n) = 1 \<and> vdot (forward n) (forward n) = 1
     \<and> vdot (right n) (up n) = 0 \<and> vdot (right n) (forward n) = 0
     \<and> vdot (up n) (forward n) = 0"







chapter \<open>Properties\<close>

section \<open>The blur weights\<close>

lemma num_sum_Some:
  "fold (\<lambda>v s. num_add s v) (map (\<lambda>i. Some (f i)) xs) (Some a) = Some (a + sum_list (map f xs))"
  by (induction xs arbitrary: a) (simp_all add: num_add_def add.assoc)

lemma gauss_pos_sigma:
  assumes "2 \<le> k"
  shows "gauss (real i - (real k - 1) * 0.5) ((real k - 1) / (2 * 3)) = Some (gaussValue k i)"
proof -
  have s: "(real k - 1) / (2 * 3) \<noteq> 0" using assms by simp
  have e: "(real i - (real k - 1) * 0.5) * (real i - (real k - 1) * 0.5) / (2 * ((real k - 1) / (2 * 3)) * ((real k - 1) / (2 * 3)))
         = (real i - (real k - 1) / 2)\<^sup>2 / (2 * ((real k - 1) / 6)\<^sup>2)"
  proof -
    have d: "real k - 1 \<noteq> 0" using assms by simp
    have "2 * ((real k - 1) / (2 * 3)) * ((real k - 1) / (2 * 3)) = 2 * ((real k - 1) / 6)\<^sup>2"
      by (simp add: power2_eq_square)
    moreover have "(real i - (real k - 1) * 0.5) * (real i - (real k - 1) * 0.5) = (real i - (real k - 1) / 2)\<^sup>2"
      by (simp add: power2_eq_square)
    ultimately show ?thesis by (simp only:)
  qed
  show ?thesis
    unfolding gauss_def gaussValue_def Let_def using s e by simp
qed

lemma gaussValue_pos: "0 < gaussValue k i"
  by (simp add: gaussValue_def Let_def)

lemma gauss_total_pos: "0 < k \<Longrightarrow> 0 < (\<Sum>j<k. gaussValue k j)"
  by (rule sum_pos) (auto simp add: gaussValue_pos)

lemma gaussWeights_unclamped:
  assumes "2 \<le> k" and "k \<le> maxBlurSize"
  shows "gaussWeights k = map (\<lambda>i. Some (gaussValue k i / (\<Sum>j<k. gaussValue k j))) [0..<k]"
proof -
  have vals: "map (\<lambda>i. gauss (real i - (real k - 1) * 0.5) ((real k - 1) / (2 * 3))) [0..<k]
                = map (\<lambda>i. Some (gaussValue k i)) [0..<k]"
    using gauss_pos_sigma [OF assms(1)] by simp
  have total: "num_sum (map (\<lambda>i. Some (gaussValue k i)) [0..<k]) = Some (\<Sum>j<k. gaussValue k j)"
    unfolding num_sum_def num_sum_Some
    by (simp add: interv_sum_list_conv_sum_set_nat atLeast0LessThan)
  have nz: "(\<Sum>j<k. gaussValue k j) \<noteq> 0"
    using gauss_total_pos [of k] assms(1) by simp
  have k: "(if maxBlurSize < k then maxBlurSize else k) = k" using assms(2) by simp
  show ?thesis
    unfolding gaussWeights_def Let_def k vals total
    by (simp add: num_div_def nz)
qed

lemma gaussWeights_clamped: "maxBlurSize < k \<Longrightarrow> gaussWeights k = gaussWeights maxBlurSize"
  by (simp add: gaussWeights_def)

lemma gaussWeights_closed_form:
  assumes "2 \<le> k"
  shows "gaussWeights k =
           map (\<lambda>i. Some (gaussValue (min k maxBlurSize) i /
                            (\<Sum>j<min k maxBlurSize. gaussValue (min k maxBlurSize) j)))
               [0..<min k maxBlurSize]"
proof (cases "k \<le> maxBlurSize")
  case True
  then show ?thesis using gaussWeights_unclamped [OF assms True] by (simp add: min_def)
next
  case False
  then have "gaussWeights k = gaussWeights maxBlurSize"
    by (simp add: gaussWeights_clamped)
  moreover have "min k maxBlurSize = maxBlurSize" using False by simp
  ultimately show ?thesis
    using gaussWeights_unclamped [of maxBlurSize] by (simp add: maxBlurSize_def)
qed

text \<open>
  C6 (as stated, for every kernel size in [1, 25]) fails at kernel size 1: there
  \<open>sigma = 0\<close> and \<open>x = 0\<close>, so the single weight is \<open>exp (-0 / 0)\<close>, NaN, and the
  weights do not sum to 1.
\<close>

theorem gaussWeights_one_is_NaN:
  "gaussWeights 1 = [None] \<and> num_sum (gaussWeights 1) \<noteq> Some 1"
  by (simp add: gaussWeights_def gauss_def num_sum_def num_add_def num_div_def maxBlurSize_def)

text \<open>
  C6 (amended): for every kernel size \<open>k \<ge> 2\<close>, with \<open>n = min k 25\<close> the clamped size,
  \<open>gaussWeights k\<close> is an array of \<open>n\<close> weights; weight \<open>i\<close> is
  \<open>exp (-(i - halfWidth)\<^sup>2 / (2 sigma\<^sup>2))\<close> with \<open>sigma = (n - 1) / 6\<close> and
  \<open>halfWidth = (n - 1) / 2\<close>, divided by the sum of these values over \<open>[0, n)\<close>; no weight
  is NaN and the weights sum to 1 (exactly, in real arithmetic).
\<close>

theorem gaussWeights_normalised:
  assumes "2 \<le> k"
  shows "length (gaussWeights k) = min k maxBlurSize
       \<and> (\<forall>i < min k maxBlurSize.
            gaussWeights k ! i =
              Some (gaussValue (min k maxBlurSize) i /
                    (\<Sum>j<min k maxBlurSize. gaussValue (min k maxBlurSize) j)))
       \<and> num_sum (gaussWeights k) = Some 1"
proof -
  define n where "n = min k maxBlurSize"
  define S where "S = (\<Sum>j<n. gaussValue n j)"
  have n2: "0 < n" using assms by (simp add: maxBlurSize_def n_def)
  have nz: "S \<noteq> 0" using gauss_total_pos [OF n2] by (simp add: S_def)
  have cf: "gaussWeights k = map (\<lambda>i. Some (gaussValue n i / S)) [0..<n]"
    unfolding n_def S_def by (rule gaussWeights_closed_form [OF assms])
  have "num_sum (gaussWeights k) = Some (sum_list (map (\<lambda>i. gaussValue n i / S) [0..<n]))"
    unfolding cf num_sum_def num_sum_Some by simp
  also have "sum_list (map (\<lambda>i. gaussValue n i / S) [0..<n]) = (\<Sum>i<n. gaussValue n i / S)"
    by (simp add: interv_sum_list_conv_sum_set_nat atLeast0LessThan)
  also have "\<dots> = (\<Sum>i<n. gaussValue n i) / S"
    by (simp add: sum_divide_distrib)
  also have "\<dots> = S / S"
    by (simp add: S_def)
  also have "\<dots> = 1" using nz by simp
  finally have total: "num_sum (gaussWeights k) = Some 1" .
  show ?thesis
    using total unfolding cf by (simp add: n_def [symmetric] S_def [symmetric])
qed

theorem gaussWeights_normalised_witness:
  "length (gaussWeights 3) = 3
   \<and> gaussWeights 3 ! 1 = Some (gaussValue 3 1 / (\<Sum>j<3. gaussValue 3 j))
   \<and> num_sum (gaussWeights 3) = Some 1
   \<and> length (gaussWeights 40) = 25"
  using gaussWeights_normalised [of 3] gaussWeights_normalised [of 40]
  by (simp add: maxBlurSize_def)

section \<open>The cascade split distances\<close>

lemma split_fold_length:
  "length (fold (setSplit l N F) is ds) = length ds"
  by (induction "is" arbitrary: ds) (simp_all add: setSplit_def)

lemma split_fold_nth:
  "j < length ds \<Longrightarrow>
   fold (setSplit l N F) [Suc 0..<C] ds ! j
     = (if Suc j < C then splitDistance l N F (Suc j) else ds ! j)"
proof (induction C)
  case 0
  then show ?case by simp
next
  case (Suc C)
  show ?case
  proof (cases "C = 0")
    case True
    then show ?thesis by simp
  next
    case False
    then have upt: "[Suc 0..<Suc C] = [Suc 0..<C] @ [C]" by simp
    have "fold (setSplit l N F) [Suc 0..<Suc C] ds
            = (fold (setSplit l N F) [Suc 0..<C] ds)[C - 1 := splitDistance l N F C]"
      unfolding upt by (simp add: setSplit_def)
    moreover have "(fold (setSplit l N F) [Suc 0..<C] ds)[C - 1 := splitDistance l N F C] ! j
                     = (if Suc j < Suc C then splitDistance l N F (Suc j) else ds ! j)"
    proof (cases "j = C - 1")
      case True
      then have "C = Suc j" using False by simp
      then show ?thesis using Suc.prems by (simp add: split_fold_length)
    next
      case False
      then have "Suc j < Suc C \<longleftrightarrow> Suc j < C" by auto
      then show ?thesis using False Suc by simp
    qed
    ultimately show ?thesis by simp
  qed
qed

lemma splitDistance_last:
  assumes "0 < numCascades l" "0 < N" "0 < F"
  shows "splitDistance l N F (numCascades l) = F"
proof -
  have fr: "real (numCascades l) / real (numCascades l) = 1" using assms(1) by simp
  have "0 \<le> F / N" using assms by simp
  then have "(F / N) powr 1 = F / N" by (rule powr_one)
  then show ?thesis
    unfolding splitDistance_def Let_def fr lerp_def using assms(2) by simp
qed

lemma splitDistance_zero:
  assumes "0 < N" "0 < F"
  shows "splitDistance l N F 0 = N"
  using assms by (simp add: splitDistance_def lerp_def)

lemma generateSplitDistances_nth:
  assumes "j < length (shadowCascadeDistances l)"
  shows "shadowCascadeDistances (generateSplitDistances l N F) ! j
          = (if Suc j < numCascades l then splitDistance l N F (Suc j) else F)"
  using assms by (simp add: generateSplitDistances_def split_fold_nth)

lemma generateSplitDistances_length:
  "length (shadowCascadeDistances (generateSplitDistances l N F)) = length (shadowCascadeDistances l)"
  by (simp add: generateSplitDistances_def split_fold_length)

lemma splitDistance_strict_mono:
  assumes N: "0 < N" and F: "N < F" and d: "0 \<le> cascadeDistribution l" "cascadeDistribution l \<le> 1"
      and C: "0 < numCascades l" and ij: "i < j"
  shows "splitDistance l N F i < splitDistance l N F j"
proof -
  define C where "C = real (numCascades l)"
  define d where "d = cascadeDistribution l"
  have Cpos: "0 < C" using C by (simp add: C_def)
  have fr: "real i / C < real j / C" using ij Cpos by (simp add: divide_strict_right_mono)
  have "(F - N) * (real i / C) < (F - N) * (real j / C)"
    using fr F by (intro mult_strict_left_mono) simp_all
  then have lin: "N + (F - N) * (real i / C) < N + (F - N) * (real j / C)"
    by simp
  have base: "1 < F / N" using N F by simp
  have "(F / N) powr (real i / C) < (F / N) powr (real j / C)"
    using fr base by (rule powr_less_mono)
  then have lg: "N * (F / N) powr (real i / C) < N * (F / N) powr (real j / C)"
    using N by simp
  have conv: "lerp a b d = (1 - d) * a + d * b" for a b
    by (simp add: lerp_def algebra_simps)
  have "(1 - d) * (N + (F - N) * (real i / C)) + d * (N * (F / N) powr (real i / C))
      < (1 - d) * (N + (F - N) * (real j / C)) + d * (N * (F / N) powr (real j / C))"
  proof (cases "d = 1")
    case True
    then show ?thesis using lg by simp
  next
    case False
    then have "0 < 1 - d" using assms(4) by (simp add: d_def)
    then have "(1 - d) * (N + (F - N) * (real i / C)) < (1 - d) * (N + (F - N) * (real j / C))"
      using lin by simp
    moreover have "d * (N * (F / N) powr (real i / C)) \<le> d * (N * (F / N) powr (real j / C))"
      using lg assms(3) by (simp add: d_def mult_left_mono)
    ultimately show ?thesis by (rule add_less_le_mono)
  qed
  then show ?thesis
    by (simp add: splitDistance_def Let_def conv C_def [symmetric] d_def [symmetric])
qed


lemma root_pow:
  assumes "0 < (x::real)" "0 < n"
  shows "(x ^ n) powr (real m / real n) = x ^ m"
proof -
  have "(x ^ n) powr (real m / real n) = (x powr real n) powr (real m / real n)"
    using assms(1) by (simp add: powr_realpow)
  also have "\<dots> = x powr (real n * (real m / real n))"
    by (simp add: powr_powr)
  also have "real n * (real m / real n) = real m" using assms(2) by simp
  also have "x powr real m = x ^ m" using assms(1) by (simp add: powr_realpow)
  finally show ?thesis .
qed

lemma powr_between:
  assumes "0 < (lo::real)" "lo ^ n < x" "x < hi ^ n" "0 < n" "0 < m" "0 < hi"
  shows "lo ^ m < x powr (real m / real n) \<and> x powr (real m / real n) < hi ^ m"
proof -
  have a: "0 < real m / real n" using assms by simp
  have "(lo ^ n) powr (real m / real n) < x powr (real m / real n)"
    using a assms(1,2) by (intro powr_less_mono2) simp_all
  moreover have "x powr (real m / real n) < (hi ^ n) powr (real m / real n)"
    using a assms(1,2,3) by (intro powr_less_mono2) (simp_all add: less_imp_le [OF less_trans [OF zero_less_power [OF assms(1)] assms(2)]])
  ultimately show ?thesis
    using root_pow [OF assms(1,4)] root_pow [OF assms(6,4)] by simp
qed

lemma q1: "10 < (10001::real) powr (1/4) \<and> (10001::real) powr (1/4) < 100003/10000"
  using powr_between [of 10 4 10001 "100003/10000" 1] by (simp add: power4_eq_xxxx)

lemma q2: "100 < (10001::real) powr (1/2) \<and> (10001::real) powr (1/2) < 10001/100"
  using powr_between [of 10 4 10001 "100003/10000" 2] by (simp add: power4_eq_xxxx power2_eq_square)

lemma q3: "1000 < (10001::real) powr (3/4) \<and> (10001::real) powr (3/4) < 10001/10"
  using powr_between [of 10 4 10001 "100003/10000" 3] by (simp add: power4_eq_xxxx power3_eq_cube)

lemma example_split:
  "splitDistance exampleLight (1/10) (10001/10) (Suc 0) = (2501 / 10 + 10001 powr (1/4) / 10) / 2"
  "splitDistance exampleLight (1/10) (10001/10) (Suc (Suc 0)) = (5001 / 10 + 10001 powr (1/2) / 10) / 2"
  "splitDistance exampleLight (1/10) (10001/10) (Suc (Suc (Suc 0))) = (7501 / 10 + 10001 powr (3/4) / 10) / 2"
  by (simp_all add: splitDistance_def exampleLight_def lerp_def Let_def field_simps)

lemma example_far_dists:
  "frustumFarDist (generateSplitDistances exampleLight (1/10) (10001/10)) 0
     = (2501 / 10 + 10001 powr (1/4) / 10) / 2"
  "frustumFarDist (generateSplitDistances exampleLight (1/10) (10001/10)) 1
     = (5001 / 10 + 10001 powr (1/2) / 10) / 2"
  "frustumFarDist (generateSplitDistances exampleLight (1/10) (10001/10)) 2
     = (7501 / 10 + 10001 powr (3/4) / 10) / 2"
  "frustumFarDist (generateSplitDistances exampleLight (1/10) (10001/10)) 3 = 10001 / 10"
proof -
  have len: "length (shadowCascadeDistances exampleLight) = 4" and C: "numCascades exampleLight = 4"
    by (simp_all add: exampleLight_def)
  have nth: "frustumFarDist (generateSplitDistances exampleLight (1/10) (10001/10)) j
          = (if Suc j < 4 then splitDistance exampleLight (1/10) (10001/10) (Suc j) else 10001/10)"
    if "j < 4" for j
    unfolding frustumFarDist_def using generateSplitDistances_nth [of j exampleLight] that
    by (simp add: len C)
  show "frustumFarDist (generateSplitDistances exampleLight (1/10) (10001/10)) 0
     = (2501 / 10 + 10001 powr (1/4) / 10) / 2"
    using nth [of 0] by (simp add: example_split)
  show "frustumFarDist (generateSplitDistances exampleLight (1/10) (10001/10)) 1
     = (5001 / 10 + 10001 powr (1/2) / 10) / 2"
    using nth [of 1] by (simp add: example_split numeral_2_eq_2 numeral_3_eq_3)
  show "frustumFarDist (generateSplitDistances exampleLight (1/10) (10001/10)) 2
     = (7501 / 10 + 10001 powr (3/4) / 10) / 2"
    using nth [of 2] by (simp add: example_split numeral_2_eq_2 numeral_3_eq_3)
  show "frustumFarDist (generateSplitDistances exampleLight (1/10) (10001/10)) 3 = 10001 / 10"
    using nth [of 3] by simp
qed

text \<open>
  C1: for a light with \<open>C \<ge> 1\<close> cascades (and an array of cascade distances that holds
  them), \<open>0 < N < F\<close>: \<open>generateSplitDistances\<close> writes for every \<open>i\<close> in \<open>[1, C-1]\<close>
  the entry \<open>i - 1 = lerp (N + (F-N) i/C) (N (F/N)\<^sup>i\<^sup>/\<^sup>C) d\<close>, leaves entry \<open>C - 1\<close> (the far
  bound of the last cascade) and the final entry of the array equal to \<open>F\<close>; with
  \<open>d = 0\<close> the entries are the linear values and with \<open>d = 1\<close> the geometric ones.
\<close>

theorem generateSplitDistances_splits:
  assumes "1 \<le> numCascades l" and "numCascades l \<le> length (shadowCascadeDistances l)"
      and "0 < N" and "N < F"
  shows "(\<forall>i. 1 \<le> i \<and> i < numCascades l \<longrightarrow>
            shadowCascadeDistances (generateSplitDistances l N F) ! (i - 1)
              = lerp (N + (F - N) * (real i / real (numCascades l)))
                     (N * (F / N) powr (real i / real (numCascades l)))
                     (cascadeDistribution l))
       \<and> shadowCascadeDistances (generateSplitDistances l N F) ! (numCascades l - 1) = F
       \<and> last (shadowCascadeDistances (generateSplitDistances l N F)) = F
       \<and> (cascadeDistribution l = 0 \<longrightarrow>
            (\<forall>i. 1 \<le> i \<and> i < numCascades l \<longrightarrow>
               shadowCascadeDistances (generateSplitDistances l N F) ! (i - 1)
                 = N + (F - N) * (real i / real (numCascades l))))
       \<and> (cascadeDistribution l = 1 \<longrightarrow>
            (\<forall>i. 1 \<le> i \<and> i < numCascades l \<longrightarrow>
               shadowCascadeDistances (generateSplitDistances l N F) ! (i - 1)
                 = N * (F / N) powr (real i / real (numCascades l))))"
proof -
  let ?ds = "shadowCascadeDistances (generateSplitDistances l N F)"
  have split: "?ds ! (i - 1) = splitDistance l N F i" if "1 \<le> i" "i < numCascades l" for i
  proof -
    have "i - 1 < length (shadowCascadeDistances l)" using that assms(2) by simp
    then have "?ds ! (i - 1) = (if Suc (i - 1) < numCascades l then splitDistance l N F (Suc (i - 1)) else F)"
      by (rule generateSplitDistances_nth)
    then show ?thesis using that by simp
  qed
  have final: "?ds ! (numCascades l - 1) = F"
  proof -
    have "numCascades l - 1 < length (shadowCascadeDistances l)" using assms(1,2) by simp
    then have "?ds ! (numCascades l - 1)
        = (if Suc (numCascades l - 1) < numCascades l then splitDistance l N F (Suc (numCascades l - 1)) else F)"
      by (rule generateSplitDistances_nth)
    then show ?thesis using assms(1) by simp
  qed
  have lastF: "last ?ds = F"
  proof -
    have n: "length ?ds = length (shadowCascadeDistances l)" by (rule generateSplitDistances_length)
    have pos: "0 < length (shadowCascadeDistances l)" using assms(1,2) by linarith
    then have "0 < length ?ds" using n by simp
    then have ne: "?ds \<noteq> []" by simp
    have "last ?ds = ?ds ! (length (shadowCascadeDistances l) - 1)"
      using last_conv_nth [OF ne] n by simp
    also have "\<dots> = (if Suc (length (shadowCascadeDistances l) - 1) < numCascades l
                       then splitDistance l N F (Suc (length (shadowCascadeDistances l) - 1)) else F)"
      using pos by (intro generateSplitDistances_nth) simp
    also have "\<dots> = F" using assms(2) pos by simp
    finally show ?thesis .
  qed
  show ?thesis
    using split final lastF by (simp add: splitDistance_def lerp_def Let_def)
qed

theorem generateSplitDistances_splits_witness:
  "shadowCascadeDistances (generateSplitDistances exampleLight 1 16) ! 0
     = lerp (1 + (16 - 1) * (1 / 4)) (1 * (16 / 1) powr (1 / 4)) (1 / 2)
   \<and> shadowCascadeDistances (generateSplitDistances exampleLight 1 16) ! 3 = 16
   \<and> last (shadowCascadeDistances (generateSplitDistances exampleLight 1 16)) = 16"
proof -
  have h: "1 \<le> numCascades exampleLight"
          "numCascades exampleLight \<le> length (shadowCascadeDistances exampleLight)"
          "(0::real) < 1" "(1::real) < 16"
    by (simp_all add: exampleLight_def)
  note t = generateSplitDistances_splits [OF h]
  from t have "1 \<le> (1::nat) \<and> (1::nat) < numCascades exampleLight \<longrightarrow>
            shadowCascadeDistances (generateSplitDistances exampleLight 1 16) ! (1 - 1)
              = lerp (1 + (16 - 1) * (real 1 / real (numCascades exampleLight)))
                     (1 * (16 / 1) powr (real 1 / real (numCascades exampleLight)))
                     (cascadeDistribution exampleLight)"
    by blast
  moreover have "numCascades exampleLight = 4" "cascadeDistribution exampleLight = 1 / 2"
    by (simp_all add: exampleLight_def)
  ultimately show ?thesis using t by simp
qed

text \<open>
  C2 (as stated) fails in its example: for \<open>N = 0.1\<close>, \<open>F = 1000.1\<close>, \<open>C = 4\<close>,
  \<open>d = 0.5\<close> the ratio \<open>F / N\<close> is 10001 and the second far bound is
  \<open>(500.1 + 0.1 \<surd>10001) / 2 > 255.05\<close>, more than \<open>10\<^sup>-\<^sup>2\<close> away from 255.03.
\<close>

theorem example_second_split_not_255_03:
  "\<not> \<bar>frustumFarDist (generateSplitDistances exampleLight (1/10) (10001/10)) 1 - 25503 / 100\<bar> \<le> 1 / 100"
  unfolding example_far_dists using q2 by (simp add: abs_le_iff)

text \<open>
  C2 (amended): for \<open>N > 0\<close>, \<open>F > N\<close>, \<open>C \<ge> 1\<close> and \<open>d\<close> in \<open>[0, 1]\<close> the far bounds of
  the \<open>C\<close> cascades are strictly increasing, every cascade's near bound is below its far
  bound, all bounds lie in \<open>[N, F]\<close> and the last far bound is \<open>F\<close>; for \<open>N = 0.1\<close>,
  \<open>F = 1000.1\<close>, \<open>C = 4\<close>, \<open>d = 0.5\<close> the four far bounds are
  \<open>[125.55, 255.05, 425.05, 1000.1]\<close> to within \<open>10\<^sup>-\<^sup>2\<close>.
\<close>

theorem cascade_splits_increasing_bounded:
  "(1 \<le> numCascades l \<and> numCascades l \<le> length (shadowCascadeDistances l)
      \<and> 0 < N \<and> N < F \<and> 0 \<le> cascadeDistribution l \<and> cascadeDistribution l \<le> 1 \<longrightarrow>
      (\<forall>i j. i < j \<and> j < numCascades l \<longrightarrow>
           frustumFarDist (generateSplitDistances l N F) i
             < frustumFarDist (generateSplitDistances l N F) j)
    \<and> (\<forall>c. c < numCascades l \<longrightarrow>
           frustumNearDist (generateSplitDistances l N F) N c
             < frustumFarDist (generateSplitDistances l N F) c
         \<and> N \<le> frustumNearDist (generateSplitDistances l N F) N c
         \<and> N < frustumFarDist (generateSplitDistances l N F) c
         \<and> frustumFarDist (generateSplitDistances l N F) c \<le> F)
    \<and> frustumFarDist (generateSplitDistances l N F) (numCascades l - 1) = F)
   \<and> \<bar>frustumFarDist (generateSplitDistances exampleLight (1/10) (10001/10)) 0 - 12555 / 100\<bar> \<le> 1 / 100
   \<and> \<bar>frustumFarDist (generateSplitDistances exampleLight (1/10) (10001/10)) 1 - 25505 / 100\<bar> \<le> 1 / 100
   \<and> \<bar>frustumFarDist (generateSplitDistances exampleLight (1/10) (10001/10)) 2 - 42505 / 100\<bar> \<le> 1 / 100
   \<and> \<bar>frustumFarDist (generateSplitDistances exampleLight (1/10) (10001/10)) 3 - 10001 / 10\<bar> \<le> 1 / 100"
proof -
  have general: "(\<forall>i j. i < j \<and> j < numCascades l \<longrightarrow>
           frustumFarDist (generateSplitDistances l N F) i
             < frustumFarDist (generateSplitDistances l N F) j)
    \<and> (\<forall>c. c < numCascades l \<longrightarrow>
           frustumNearDist (generateSplitDistances l N F) N c
             < frustumFarDist (generateSplitDistances l N F) c
         \<and> N \<le> frustumNearDist (generateSplitDistances l N F) N c
         \<and> N < frustumFarDist (generateSplitDistances l N F) c
         \<and> frustumFarDist (generateSplitDistances l N F) c \<le> F)
    \<and> frustumFarDist (generateSplitDistances l N F) (numCascades l - 1) = F"
    if C: "1 \<le> numCascades l" and len: "numCascades l \<le> length (shadowCascadeDistances l)"
      and N: "0 < N" and F: "N < F" and d: "0 \<le> cascadeDistribution l" "cascadeDistribution l \<le> 1"
  proof -
    have Cpos: "0 < numCascades l" and Fpos: "0 < F" using C N F by simp_all
    have mono: "splitDistance l N F i < splitDistance l N F j" if "i < j" for i j
      using splitDistance_strict_mono [OF N F d Cpos that] .
    have far: "frustumFarDist (generateSplitDistances l N F) c = splitDistance l N F (Suc c)"
      if "c < numCascades l" for c
    proof -
      have "c < length (shadowCascadeDistances l)" using that len by simp
      then have "frustumFarDist (generateSplitDistances l N F) c
                   = (if Suc c < numCascades l then splitDistance l N F (Suc c) else F)"
        unfolding frustumFarDist_def by (rule generateSplitDistances_nth)
      moreover have "Suc c = numCascades l" if "\<not> Suc c < numCascades l"
        using that \<open>c < numCascades l\<close> by simp
      ultimately show ?thesis
        using splitDistance_last [OF Cpos N Fpos] by (cases "Suc c < numCascades l") simp_all
    qed
    have near: "frustumNearDist (generateSplitDistances l N F) N c = splitDistance l N F c"
      if "c < numCascades l" for c
    proof (cases c)
      case 0
      then show ?thesis using splitDistance_zero [OF N Fpos] by (simp add: frustumNearDist_def)
    next
      case (Suc c')
      then have "c' < numCascades l" using that by simp
      from far [OF this] show ?thesis using Suc by (simp add: frustumNearDist_def frustumFarDist_def)
    qed
    have lo: "N \<le> splitDistance l N F c" for c
    proof (cases c)
      case 0
      then show ?thesis using splitDistance_zero [OF N Fpos] by simp
    next
      case (Suc c')
      then show ?thesis using mono [of 0 c] splitDistance_zero [OF N Fpos, of l] by simp
    qed
    have hi: "splitDistance l N F (Suc c) \<le> F" if "c < numCascades l" for c
    proof (cases "Suc c = numCascades l")
      case True
      then show ?thesis using splitDistance_last [OF Cpos N Fpos] by simp
    next
      case False
      then have "Suc c < numCascades l" using that by simp
      from mono [OF this] show ?thesis using splitDistance_last [OF Cpos N Fpos] by simp
    qed
    have inc: "frustumFarDist (generateSplitDistances l N F) i
                 < frustumFarDist (generateSplitDistances l N F) j"
      if "i < j" "j < numCascades l" for i j
    proof -
      have i: "i < numCascades l" using that by simp
      show ?thesis using far [OF i] far [OF that(2)] mono [of "Suc i" "Suc j"] that(1) by simp
    qed
    have each: "frustumNearDist (generateSplitDistances l N F) N c
             < frustumFarDist (generateSplitDistances l N F) c
         \<and> N \<le> frustumNearDist (generateSplitDistances l N F) N c
         \<and> N < frustumFarDist (generateSplitDistances l N F) c
         \<and> frustumFarDist (generateSplitDistances l N F) c \<le> F"
      if "c < numCascades l" for c
      using near [OF that] far [OF that] mono [of c "Suc c"] lo [of c] hi [OF that] by simp
    have fin: "frustumFarDist (generateSplitDistances l N F) (numCascades l - 1) = F"
      using far [of "numCascades l - 1"] Cpos splitDistance_last [OF Cpos N Fpos] by simp
    show ?thesis using inc each fin by blast
  qed
  have e0: "\<bar>frustumFarDist (generateSplitDistances exampleLight (1/10) (10001/10)) 0 - 12555 / 100\<bar> \<le> 1 / 100"
    unfolding example_far_dists using q1 by (simp add: abs_le_iff)
  have e1: "\<bar>frustumFarDist (generateSplitDistances exampleLight (1/10) (10001/10)) 1 - 25505 / 100\<bar> \<le> 1 / 100"
    unfolding example_far_dists using q2 by (simp add: abs_le_iff)
  have e2: "\<bar>frustumFarDist (generateSplitDistances exampleLight (1/10) (10001/10)) 2 - 42505 / 100\<bar> \<le> 1 / 100"
    unfolding example_far_dists using q3 by (simp add: abs_le_iff)
  have e3: "\<bar>frustumFarDist (generateSplitDistances exampleLight (1/10) (10001/10)) 3 - 10001 / 10\<bar> \<le> 1 / 100"
    unfolding example_far_dists by simp
  show ?thesis using general e0 e1 e2 e3 by blast
qed

theorem cascade_splits_increasing_bounded_witness:
  "frustumFarDist (generateSplitDistances exampleLight (1/10) (10001/10)) 0
     < frustumFarDist (generateSplitDistances exampleLight (1/10) (10001/10)) 1
   \<and> frustumFarDist (generateSplitDistances exampleLight (1/10) (10001/10)) 1
     < frustumFarDist (generateSplitDistances exampleLight (1/10) (10001/10)) 2
   \<and> frustumFarDist (generateSplitDistances exampleLight (1/10) (10001/10)) 2
     < frustumFarDist (generateSplitDistances exampleLight (1/10) (10001/10)) 3
   \<and> 1 / 10 < frustumFarDist (generateSplitDistances exampleLight (1/10) (10001/10)) 0
   \<and> frustumFarDist (generateSplitDistances exampleLight (1/10) (10001/10)) 3 = 10001 / 10"
proof -
  have h: "1 \<le> numCascades exampleLight
      \<and> numCascades exampleLight \<le> length (shadowCascadeDistances exampleLight)
      \<and> (0::real) < 1/10 \<and> (1/10::real) < 10001/10
      \<and> 0 \<le> cascadeDistribution exampleLight \<and> cascadeDistribution exampleLight \<le> 1"
    by (simp add: exampleLight_def)
  have C: "numCascades exampleLight = 4" by (simp add: exampleLight_def)
  from cascade_splits_increasing_bounded [of exampleLight "1/10" "10001/10"] h
  have g: "(\<forall>i j. i < j \<and> j < numCascades exampleLight \<longrightarrow>
           frustumFarDist (generateSplitDistances exampleLight (1/10) (10001/10)) i
             < frustumFarDist (generateSplitDistances exampleLight (1/10) (10001/10)) j)"
    and b: "(\<forall>c. c < numCascades exampleLight \<longrightarrow>
           1/10 < frustumFarDist (generateSplitDistances exampleLight (1/10) (10001/10)) c)"
    and f: "frustumFarDist (generateSplitDistances exampleLight (1/10) (10001/10)) (numCascades exampleLight - 1) = 10001/10"
    by blast+
  show ?thesis
    using g [rule_format, of 0 1] g [rule_format, of 1 2] g [rule_format, of 2 3] b [rule_format, of 0] f
    by (simp add: C)
qed

section \<open>Culling of the shadow casters\<close>

lemma js_assign_take:
  "count \<le> length visible \<Longrightarrow>
     take (Suc count) (js_assign visible count v) = take count visible @ [v]"
  by (auto simp add: js_assign_def take_Suc_conv_app_nth)

lemma js_assign_length:
  "count \<le> length visible \<Longrightarrow> Suc count \<le> length (js_assign visible count v)"
  by (auto simp add: js_assign_def)

lemma cullLoop_spec:
  assumes "count \<le> length visible"
  shows "(case cullLoop p ms visible count of
            (ms', visible', count') \<Rightarrow>
               ms' = map (\<lambda>m. if \<not> cull m \<or> p m then markVisible m else m) ms
             \<and> count' = count + length (filter (\<lambda>m. \<not> cull m \<or> p m) ms)
             \<and> count' \<le> length visible'
             \<and> take count' visible'
                  = take count visible
                    @ map markVisible (filter (\<lambda>m. \<not> cull m \<or> p m) ms))"
  using assms
proof (induction ms arbitrary: visible count)
  case Nil
  then show ?case by simp
next
  case (Cons m ms)
  show ?case
  proof (cases "\<not> cull m \<or> p m")
    case True
    let ?marked = "markVisible m"
    have le: "Suc count \<le> length (js_assign visible count ?marked)"
      using Cons.prems by (rule js_assign_length)
    have tk: "take (Suc count) (js_assign visible count ?marked) = take count visible @ [?marked]"
      using Cons.prems by (rule js_assign_take)
    from Cons.IH [OF le] tk True show ?thesis
      by (auto split: prod.splits)
  next
    case False
    from Cons.IH [OF Cons.prems] False show ?thesis
      by (auto split: prod.splits)
  qed
qed

lemma cullShadowCasters_visible:
  "snd (cullShadowCasters isVis ms visible camera)
     = depthSort
         (map markVisible
              (filter (\<lambda>m. \<not> cull m \<or> isVis m camera) ms))"
  using cullLoop_spec [of 0 visible "\<lambda>m. isVis m camera" ms]
  by (auto simp add: cullShadowCasters_def split: prod.splits)

lemma cullShadowCasters_instances:
  "fst (cullShadowCasters isVis ms visible camera)
     = map (\<lambda>m. if \<not> cull m \<or> isVis m camera then markVisible m else m) ms"
  using cullLoop_spec [of 0 visible "\<lambda>m. isVis m camera" ms]
  by (auto simp add: cullShadowCasters_def split: prod.splits)


lemma mark_pass_cong:
  assumes H: "\<And>m c. isVis (markVisible m) c = isVis m c"
      and eq: "markVisible m' = markVisible m"
  shows "(\<not> cull m' \<or> isVis m' camera) = (\<not> cull m \<or> isVis m camera)"
proof -
  have "cull (markVisible m') = cull (markVisible m)"
    using eq by (rule arg_cong)
  then have c: "cull m' = cull m" by (simp add: markVisible_def)
  have "isVis (markVisible m') camera = isVis (markVisible m) camera"
    using eq by (simp only:)
  then have "isVis m' camera = isVis m camera" by (simp only: H)
  with c show ?thesis by (simp only:)
qed

lemma cullShadowCasters_set:
  "set (snd (cullShadowCasters isVis ms visible camera))
     = markVisible ` {m \<in> set ms. \<not> cull m \<or> isVis m camera}"
  unfolding cullShadowCasters_visible depthSort_def by simp

lemma depthSort_single: "depthSort [m] = [m]"
  by (simp add: depthSort_def)

lemma depthSort_Nil: "depthSort [] = []"
  by (simp add: depthSort_def)

lemma count_list_insort_key:
  "count_list (insort_key f a xs) x = count_list (a # xs) x"
  by (induction xs) auto

lemma count_list_sort_key:
  "count_list (sort_key f xs) x = count_list xs x"
  by (induction xs) (simp_all add: count_list_insort_key)

lemma depthSort_count: "count_list (depthSort ms) x = count_list ms x"
  by (simp add: depthSort_def count_list_sort_key)

lemma depthSort_descending: "sorted (rev (map depthKey (depthSort ms)))"
proof -
  have "sorted (map (\<lambda>m. - depthKey m) (depthSort ms))"
    unfolding depthSort_def by (rule sorted_sort_key)
  then show ?thesis
    by (simp add: sorted_wrt_rev sorted_wrt_map)
qed

lemma cullShadowCasters_member:
  assumes H: "\<And>m c. isVis (markVisible m) c = isVis m c"
      and m: "m' \<in> set ms" "markVisible m' = markVisible m"
  shows "markVisible m \<in> set (snd (cullShadowCasters isVis ms visible camera))
           \<longleftrightarrow> (\<not> cull m \<or> isVis m camera)"
proof
  assume "markVisible m \<in> set (snd (cullShadowCasters isVis ms visible camera))"
  then obtain m2 where m2: "m2 \<in> set ms" "\<not> cull m2 \<or> isVis m2 camera"
      "markVisible m = markVisible m2"
    unfolding cullShadowCasters_set by blast
  from mark_pass_cong [where isVis = isVis, OF H m2(3) [symmetric], of camera] m2(2)
  show "\<not> cull m \<or> isVis m camera" by blast
next
  assume "\<not> cull m \<or> isVis m camera"
  then have "\<not> cull m' \<or> isVis m' camera"
    using mark_pass_cong [where isVis = isVis, OF H m(2), of camera] by blast
  then have "markVisible m'
               \<in> markVisible ` {m \<in> set ms. \<not> cull m \<or> isVis m camera}"
    using m(1) by blast
  then show "markVisible m \<in> set (snd (cullShadowCasters isVis ms visible camera))"
    unfolding cullShadowCasters_set m(2) .
qed


lemma cullShadowCasters_instances_member:
  assumes "m \<in> set ms"
  shows "\<exists>m' \<in> set (fst (cullShadowCasters isVis ms visible camera)). markVisible m' = markVisible m"
proof -
  let ?m' = "if \<not> cull m \<or> isVis m camera then markVisible m else m"
  have "?m' \<in> set (fst (cullShadowCasters isVis ms visible camera))"
    unfolding cullShadowCasters_instances using assms by (simp add: image_iff) blast
  moreover have "markVisible ?m' = markVisible m" by (simp add: markVisible_def)
  ultimately show ?thesis by blast
qed

text \<open>
  C5 (as stated) fails for a caster that is marked non-culling (\<open>cull\<close> is false): the
  test of the loop is \<^verbatim>\<open>!meshInstance.cull || meshInstance._isVisible(camera)\<close>, so
  such a caster is listed although its bounding volume meets the frustum of no camera.
\<close>

theorem non_culling_caster_outside_is_listed:
  "markVisible (caster False 0 0 1)
      \<in> set (snd (cullShadowCasters (\<lambda>m c. False) [caster False 0 0 1] [] (0::nat)))
   \<and> \<not> (cull (caster False 0 0 1) \<or> (\<lambda>m c. False) (caster False 0 0 1) (0::nat))"
  by (simp add: cullShadowCasters_visible depthSort_single caster_def)

text \<open>
  C5 (amended): the visible list that \<open>cullShadowCasters\<close> leaves holds exactly the
  instances of the input list that are marked non-culling (\<open>cull\<close> false) or pass the
  visibility test of the camera, each as often as the input list has it, and their
  depth keys descend along the list. So, for the cameras of two cascades culled one
  after the other, a caster with \<open>cull\<close> true that is outside a cascade's frustum is not
  in that cascade's list, and a caster that is non-culling or visible to both cameras is
  in both lists. (The test is assumed not to read the \<^verbatim>\<open>visibleThisFrame\<close> flag that
  the loop sets.)
\<close>

theorem cullShadowCasters_visible_iff:
  assumes H: "\<And>m c. isVis (markVisible m) c = isVis m c"
  shows "(\<forall>x. count_list (snd (cullShadowCasters isVis ms visible cam1)) x
                = count_list (map markVisible (filter (\<lambda>m. \<not> cull m \<or> isVis m cam1) ms)) x)
       \<and> sorted (rev (map depthKey (snd (cullShadowCasters isVis ms visible cam1))))
       \<and> (\<forall>m \<in> set ms.
             (markVisible m \<in> set (snd (cullShadowCasters isVis ms visible cam1))
               \<longleftrightarrow> (\<not> cull m \<or> isVis m cam1))
           \<and> (markVisible m
                 \<in> set (snd (cullShadowCasters isVis
                                (fst (cullShadowCasters isVis ms visible cam1)) visible2 cam2))
               \<longleftrightarrow> (\<not> cull m \<or> isVis m cam2)))"
proof -
  let ?ms1 = "fst (cullShadowCasters isVis ms visible cam1)"
  have first: "markVisible m \<in> set (snd (cullShadowCasters isVis ms visible cam1))
                 \<longleftrightarrow> (\<not> cull m \<or> isVis m cam1)" if "m \<in> set ms" for m
    using cullShadowCasters_member [where isVis = isVis, OF H that refl] .
  have second: "markVisible m \<in> set (snd (cullShadowCasters isVis ?ms1 visible2 cam2))
                 \<longleftrightarrow> (\<not> cull m \<or> isVis m cam2)" if mm: "m \<in> set ms" for m
  proof -
    obtain m' where "m' \<in> set ?ms1" "markVisible m' = markVisible m"
      using cullShadowCasters_instances_member [OF mm, of isVis visible cam1] by blast
    then show ?thesis
      using cullShadowCasters_member [where isVis = isVis, OF H] by blast
  qed
  have ms: "\<forall>x. count_list (snd (cullShadowCasters isVis ms visible cam1)) x
                = count_list (map markVisible (filter (\<lambda>m. \<not> cull m \<or> isVis m cam1) ms)) x"
    unfolding cullShadowCasters_visible by (simp add: depthSort_count)
  have desc: "sorted (rev (map depthKey (snd (cullShadowCasters isVis ms visible cam1))))"
    unfolding cullShadowCasters_visible by (rule depthSort_descending)
  show ?thesis
    using first second ms desc by blast
qed

text \<open>
  Three casters and a camera that sees the first of them only: the second, with culling
  enabled and out of sight, is left out; the third is non-culling and has the larger
  depth key, so it comes first.
\<close>

theorem cullShadowCasters_visible_iff_witness:
  "snd (cullShadowCasters (\<lambda>m c. vx (getMin (aabb m)) \<le> c \<and> c \<le> vx (getMax (aabb m)))
          [caster True 1 0 2, caster True 0 5 6, caster False 2 8 9] [] (1::real))
     = [markVisible (caster False 2 8 9), markVisible (caster True 1 0 2)]
   \<and> sorted (rev (map depthKey
        (snd (cullShadowCasters (\<lambda>m c. vx (getMin (aabb m)) \<le> c \<and> c \<le> vx (getMax (aabb m)))
          [caster True 1 0 2, caster True 0 5 6, caster False 2 8 9] [] (1::real)))))
   \<and> markVisible (caster True 0 5 6)
       \<notin> set (snd (cullShadowCasters (\<lambda>m c. vx (getMin (aabb m)) \<le> c \<and> c \<le> vx (getMax (aabb m)))
          [caster True 1 0 2, caster True 0 5 6, caster False 2 8 9] [] (1::real)))"
proof -
  have H: "\<And>m c. (\<lambda>m c. vx (getMin (aabb m)) \<le> c \<and> c \<le> vx (getMax (aabb m))) (markVisible m) (c::real)
                 = (\<lambda>m c. vx (getMin (aabb m)) \<le> c \<and> c \<le> vx (getMax (aabb m))) m c"
    by (simp add: markVisible_def)
  note t = cullShadowCasters_visible_iff
             [where isVis = "\<lambda>m c. vx (getMin (aabb m)) \<le> c \<and> c \<le> vx (getMax (aabb m))"
                and ms = "[caster True 1 0 2, caster True 0 5 6, caster False 2 8 9]"
                and visible = "[]" and ?cam1.0 = "1::real" and ?cam2.0 = "1::real" and ?visible2.0 = "[]", OF H]
  have l: "snd (cullShadowCasters (\<lambda>m c. vx (getMin (aabb m)) \<le> c \<and> c \<le> vx (getMax (aabb m)))
          [caster True 1 0 2, caster True 0 5 6, caster False 2 8 9] [] (1::real))
     = [markVisible (caster False 2 8 9), markVisible (caster True 1 0 2)]"
    by (simp add: cullShadowCasters_visible depthSort_def caster_def vec_def markVisible_def)
  have d: "sorted (rev (map depthKey
        (snd (cullShadowCasters (\<lambda>m c. vx (getMin (aabb m)) \<le> c \<and> c \<le> vx (getMax (aabb m)))
          [caster True 1 0 2, caster True 0 5 6, caster False 2 8 9] [] (1::real)))))"
    using t by (rule conjunct2 [THEN conjunct1])
  have n: "markVisible (caster True 0 5 6)
       \<notin> set (snd (cullShadowCasters (\<lambda>m c. vx (getMin (aabb m)) \<le> c \<and> c \<le> vx (getMax (aabb m)))
          [caster True 1 0 2, caster True 0 5 6, caster False 2 8 9] [] (1::real)))"
    using t [THEN conjunct2, THEN conjunct2] by (simp add: caster_def vec_def)
  show ?thesis using l d n by (intro conjI)
qed
section \<open>The render pass: update mode, render state and blur\<close>

lemma setShadowCameraSettings_webgl2:
  "webgl2 dev' = webgl2 dev \<Longrightarrow>
     setShadowCameraSettings dev' st ty cl = setShadowCameraSettings dev st ty cl"
  by (simp add: setShadowCameraSettings_def)

lemma setupRenderState_events:
  "events (setupRenderState r l) = events r @ [SetupRenderState]"
  by (simp add: setupRenderState_def record_event_def setPolygonOffset_def Let_def)

lemma setupRenderState_frame:
  "clusteredLightingEnabled (setupRenderState r l) = clusteredLightingEnabled r"
  "shadowMapCache (setupRenderState r l) = shadowMapCache r"
  "nextShadowMap (setupRenderState r l) = nextShadowMap r"
  "blurVsmShader (setupRenderState r l) = blurVsmShader r"
  "blurVsmWeights (setupRenderState r l) = blurVsmWeights r"
  "shadowMapUpdates (setupRenderState r l) = shadowMapUpdates r"
  "webgl2 (device (setupRenderState r l)) = webgl2 (device r)"
  "extStandardDerivatives (device (setupRenderState r l)) = extStandardDerivatives (device r)"
  by (simp_all add: setupRenderState_def record_event_def setPolygonOffset_def Let_def)

lemma renderFace_eq: "renderFace l camera face r = record_event (faceEvent l camera r face) r"
  by (simp add: renderFace_def faceEvent_def Let_def)

lemma renderFaces_eq:
  "fold (renderFace l camera) faces r = r\<lparr>events := events r @ map (faceEvent l camera r) faces\<rparr>"
proof (induction faces arbitrary: r)
  case Nil
  then show ?case by simp
next
  case (Cons f faces)
  have same: "faceEvent l camera (record_event e r) = faceEvent l camera r" for e
    by (rule ext) (simp add: faceEvent_def record_event_def)
  have "fold (renderFace l camera) (f # faces) r
          = fold (renderFace l camera) faces (record_event (faceEvent l camera r f) r)"
    by (simp add: renderFace_eq)
  also have "\<dots> = (record_event (faceEvent l camera r f) r)
                      \<lparr>events := events (record_event (faceEvent l camera r f) r)
                                   @ map (faceEvent l camera r) faces\<rparr>"
    unfolding Cons.IH same ..
  also have "\<dots> = r\<lparr>events := events r @ map (faceEvent l camera r) (f # faces)\<rparr>"
    by (simp add: record_event_def)
  finally show ?case .
qed

lemma cacheGet_events:
  "events (snd (cacheGet l r)) = events r @ [CacheGet (fst (cacheGet l r))]"
  by (simp add: cacheGet_def record_event_def Let_def split: option.splits)

lemma cacheGet_cong:
  "shadowMapCache r' = shadowMapCache r \<Longrightarrow> nextShadowMap r' = nextShadowMap r
     \<Longrightarrow> fst (cacheGet l r') = fst (cacheGet l r)"
  by (simp add: cacheGet_def Let_def split: option.splits)

lemma getVsmBlurShader_frame:
  "events (getVsmBlurShader a b c r) = events r"
  "shadowMapCache (getVsmBlurShader a b c r) = shadowMapCache r"
  "device (getVsmBlurShader a b c r) = device r"
  "polygonOffset (getVsmBlurShader a b c r) = polygonOffset r"
  "polygonOffsetId (getVsmBlurShader a b c r) = polygonOffsetId r"
  "clusteredLightingEnabled (getVsmBlurShader a b c r) = clusteredLightingEnabled r"
  by (simp_all add: getVsmBlurShader_def)

lemma applyVsmBlur_events:
  "events (applyVsmBlur l r) = events r @ blurEvents l r"
  using cacheGet_events [of l r]
  by (simp add: applyVsmBlur_def blurEvents_def cacheAdd_def record_event_def Let_def
        getVsmBlurShader_frame case_prod_beta)

lemma applyVsmBlur_cache:
  "shadowMapCache (applyVsmBlur l r)
     = shadowMapCache (snd (cacheGet l r)) @ [fst (cacheGet l r)]"
  by (simp add: applyVsmBlur_def cacheAdd_def record_event_def Let_def
        getVsmBlurShader_frame case_prod_beta)

lemma applyVsmBlur_frame:
  "device (applyVsmBlur l r) = device r"
  "polygonOffset (applyVsmBlur l r) = polygonOffset r"
  "polygonOffsetId (applyVsmBlur l r) = polygonOffsetId r"
  "clusteredLightingEnabled (applyVsmBlur l r) = clusteredLightingEnabled r"
  by (simp_all add: applyVsmBlur_def cacheAdd_def cacheGet_def record_event_def Let_def
        getVsmBlurShader_frame split: prod.splits option.splits)

lemma restoreRenderState_events:
  "events (restoreRenderState r) = events r @ [RestoreRenderState]"
  by (simp add: restoreRenderState_def record_event_def setPolygonOffset_def)

lemma renderPass_events:
  "events (renderPass l camera r)
     = events r @ [SetupRenderState]
       @ map (faceEvent l camera r) [0..<numShadowFaces l]
       @ (if blurApplies l r then blurEvents l r else [])
       @ [RestoreRenderState]"
proof -
  define r1 where "r1 = r\<lparr>shadowMapUpdates := shadowMapUpdates r + numShadowFaces l\<rparr>"
  define r2 where "r2 = setupRenderState r1 l"
  define r3 where "r3 = fold (renderFace l camera) [0..<numShadowFaces l] r2"
  have w: "webgl2 (device r2) = webgl2 (device r)"
    by (simp add: r2_def r1_def setupRenderState_frame)
  have fe: "faceEvent l camera r2 = faceEvent l camera r"
    by (rule ext)
       (simp add: faceEvent_def setShadowCameraSettings_webgl2 [OF w],
        simp add: r2_def r1_def setupRenderState_frame)
  have r3: "r3 = r2\<lparr>events := events r2 @ map (faceEvent l camera r) [0..<numShadowFaces l]\<rparr>"
    unfolding r3_def renderFaces_eq fe ..
  have ev3: "events r3 = events r @ [SetupRenderState] @ map (faceEvent l camera r) [0..<numShadowFaces l]"
    unfolding r3 by (simp add: r2_def r1_def setupRenderState_events)
  have cl3: "clusteredLightingEnabled r3 = clusteredLightingEnabled r"
    unfolding r3 by (simp add: r2_def r1_def setupRenderState_frame)
  have be: "blurEvents l r3 = blurEvents l r"
    unfolding blurEvents_def
    by (subst cacheGet_cong [of r3 r]) (simp_all add: r3 r2_def r1_def setupRenderState_frame)
  have ba: "blurApplies l r3 = blurApplies l r"
    by (simp add: blurApplies_def cl3)
  have "renderPass l camera r = restoreRenderState (if blurApplies l r3 then applyVsmBlur l r3 else r3)"
    unfolding renderPass_def Let_def r3_def r2_def r1_def blurApplies_def by auto
  then show ?thesis
    by (simp add: restoreRenderState_events applyVsmBlur_events ev3 be ba)
qed

lemma render_none: "shadowUpdateMode l = SHADOWUPDATE_NONE \<Longrightarrow> render l camera r = (l, r)"
  by (simp add: render_def)

lemma render_none_iterated:
  "shadowUpdateMode l = SHADOWUPDATE_NONE \<Longrightarrow>
     ((\<lambda>(l', r'). render l' camera r') ^^ n) (l, r) = (l, r)"
  by (induction n) (simp_all add: render_none)

text \<open>
  C7 (as stated, for every enabled shadow-casting light in the once-then-stop mode) fails
  for a light that is not visible this frame: the guard of \<open>render\<close> also asks for
  \<^verbatim>\<open>light.visibleThisFrame\<close>, so the call does nothing and the mode stays
  \<open>SHADOWUPDATE_THISFRAME\<close>.
\<close>

theorem render_thisframe_hidden_light_keeps_mode:
  "enabled (exampleLight\<lparr>shadowUpdateMode := SHADOWUPDATE_THISFRAME, visibleThisFrame := False\<rparr>)
   \<and> castShadows (exampleLight\<lparr>shadowUpdateMode := SHADOWUPDATE_THISFRAME, visibleThisFrame := False\<rparr>)
   \<and> shadowUpdateMode
        (fst (render (exampleLight\<lparr>shadowUpdateMode := SHADOWUPDATE_THISFRAME, visibleThisFrame := False\<rparr>)
                0 exampleRenderer))
       = SHADOWUPDATE_THISFRAME
   \<and> SHADOWUPDATE_THISFRAME \<noteq> SHADOWUPDATE_NONE"
  by (simp add: render_def exampleLight_def SHADOWUPDATE_THISFRAME_def SHADOWUPDATE_NONE_def)

text \<open>
  C7 (amended): for an enabled, shadow-casting light that is visible this frame and
  whose update mode is \<open>SHADOWUPDATE_THISFRAME\<close>, one call of \<open>render\<close> switches the mode
  to \<open>SHADOWUPDATE_NONE\<close> and then runs the pass with the switched light (the state is set
  up, every face is rendered, the state is restored); any number of further calls leave
  light and renderer as they are, and a call for any light whose mode is
  \<open>SHADOWUPDATE_NONE\<close> renders nothing.
\<close>

theorem render_thisframe_once:
  assumes "enabled l" and "castShadows l" and "visibleThisFrame l"
      and "shadowUpdateMode l = SHADOWUPDATE_THISFRAME"
  shows "render l camera r
           = (l\<lparr>shadowUpdateMode := SHADOWUPDATE_NONE\<rparr>,
              renderPass (l\<lparr>shadowUpdateMode := SHADOWUPDATE_NONE\<rparr>) camera r)
       \<and> shadowUpdateMode (fst (render l camera r)) = SHADOWUPDATE_NONE
       \<and> events (snd (render l camera r))
           = events r @ [SetupRenderState]
             @ map (faceEvent l camera r) [0..<numShadowFaces l]
             @ (if blurApplies l r then blurEvents l r else [])
             @ [RestoreRenderState]
       \<and> (\<forall>n. ((\<lambda>(l', r'). render l' camera r') ^^ n) (render l camera r) = render l camera r)
       \<and> (\<forall>l' camera' r'. shadowUpdateMode l' = SHADOWUPDATE_NONE \<longrightarrow>
              render l' camera' r' = (l', r') \<and> events (snd (render l' camera' r')) = events r')"
proof -
  let ?l1 = "l\<lparr>shadowUpdateMode := SHADOWUPDATE_NONE\<rparr>"
  have ne: "SHADOWUPDATE_THISFRAME \<noteq> SHADOWUPDATE_NONE"
    by (simp add: SHADOWUPDATE_THISFRAME_def SHADOWUPDATE_NONE_def)
  have eq: "render l camera r = (?l1, renderPass ?l1 camera r)"
    using assms ne by (simp add: render_def Let_def)
  have fe: "faceEvent ?l1 camera r = faceEvent l camera r"
    by (rule ext) (simp add: faceEvent_def)
  have be: "blurEvents ?l1 r = blurEvents l r"
    by (simp add: blurEvents_def cacheGet_def Let_def split: option.splits)
  have ba: "blurApplies ?l1 r = blurApplies l r"
    by (simp add: blurApplies_def)
  have ev: "events (renderPass ?l1 camera r)
           = events r @ [SetupRenderState]
             @ map (faceEvent l camera r) [0..<numShadowFaces l]
             @ (if blurApplies l r then blurEvents l r else [])
             @ [RestoreRenderState]"
    unfolding renderPass_events fe be ba by simp
  have it: "((\<lambda>(l', r'). render l' camera r') ^^ n) (render l camera r) = render l camera r" for n
    unfolding eq by (rule render_none_iterated) simp
  show ?thesis
    using eq ev it by (simp add: render_none)
qed

theorem render_thisframe_once_witness:
  "shadowUpdateMode (fst (render (exampleLight\<lparr>shadowUpdateMode := SHADOWUPDATE_THISFRAME\<rparr>) 0 exampleRenderer))
     = SHADOWUPDATE_NONE
   \<and> render (fst (render (exampleLight\<lparr>shadowUpdateMode := SHADOWUPDATE_THISFRAME\<rparr>) 0 exampleRenderer)) 0
        (snd (render (exampleLight\<lparr>shadowUpdateMode := SHADOWUPDATE_THISFRAME\<rparr>) 0 exampleRenderer))
     = render (exampleLight\<lparr>shadowUpdateMode := SHADOWUPDATE_THISFRAME\<rparr>) 0 exampleRenderer"
proof -
  have h: "enabled (exampleLight\<lparr>shadowUpdateMode := SHADOWUPDATE_THISFRAME\<rparr>)"
          "castShadows (exampleLight\<lparr>shadowUpdateMode := SHADOWUPDATE_THISFRAME\<rparr>)"
          "visibleThisFrame (exampleLight\<lparr>shadowUpdateMode := SHADOWUPDATE_THISFRAME\<rparr>)"
          "shadowUpdateMode (exampleLight\<lparr>shadowUpdateMode := SHADOWUPDATE_THISFRAME\<rparr>) = SHADOWUPDATE_THISFRAME"
    by (simp_all add: exampleLight_def)
  note t = render_thisframe_once [OF h, of 0 exampleRenderer]
  from t have one: "((\<lambda>(l', r'). render l' 0 r') ^^ 1)
                 (render (exampleLight\<lparr>shadowUpdateMode := SHADOWUPDATE_THISFRAME\<rparr>) 0 exampleRenderer)
               = render (exampleLight\<lparr>shadowUpdateMode := SHADOWUPDATE_THISFRAME\<rparr>) 0 exampleRenderer"
    by blast
  from t have m: "shadowUpdateMode (fst (render (exampleLight\<lparr>shadowUpdateMode := SHADOWUPDATE_THISFRAME\<rparr>) 0 exampleRenderer))
     = SHADOWUPDATE_NONE" by blast
  show ?thesis using one m by (simp add: case_prod_beta)
qed

lemma render_events:
  "events (snd (render l camera r))
     = events r
       @ (if renderGuard l
          then [SetupRenderState] @ map (faceEvent l camera r) [0..<numShadowFaces l]
               @ (if blurApplies l r then blurEvents l r else []) @ [RestoreRenderState]
          else [])"
proof (cases "renderGuard l")
  case False
  then have "render l camera r = (l, r)"
    unfolding render_def renderGuard_def by (simp only: if_False)
  then show ?thesis using False by simp
next
  case True
  define l1 where "l1 = (if shadowUpdateMode l = SHADOWUPDATE_THISFRAME
                         then l\<lparr>shadowUpdateMode := SHADOWUPDATE_NONE\<rparr> else l)"
  have eq: "snd (render l camera r) = renderPass l1 camera r"
    using True by (simp add: render_def renderGuard_def l1_def Let_def)
  have fe: "faceEvent l1 camera r = faceEvent l camera r"
    by (rule ext) (simp add: faceEvent_def l1_def)
  have be: "blurEvents l1 r = blurEvents l r"
    by (simp add: blurEvents_def cacheGet_def Let_def l1_def split: option.splits)
  have ba: "blurApplies l1 r = blurApplies l r"
    by (simp add: blurApplies_def l1_def)
  have nf: "numShadowFaces l1 = numShadowFaces l"
    by (simp add: l1_def)
  show ?thesis
    unfolding eq renderPass_events fe be ba nf using True by simp
qed

lemma renderPass_restored:
  "\<exists>r4. renderPass l camera r = restoreRenderState r4
        \<and> webgl2 (device r4) = webgl2 (device r)
        \<and> extStandardDerivatives (device r4) = extStandardDerivatives (device r)"
proof -
  define r2 where "r2 = setupRenderState (r\<lparr>shadowMapUpdates := shadowMapUpdates r + numShadowFaces l\<rparr>) l"
  define r3 where "r3 = fold (renderFace l camera) [0..<numShadowFaces l] r2"
  define r4 where "r4 = (if isVsm l \<and> vsmBlurSize l > 1
                then (if \<not> clusteredLightingEnabled r3 \<or> light_type l = LIGHTTYPE_DIRECTIONAL
                      then applyVsmBlur l r3 else r3)
                else r3)"
  have d2: "webgl2 (device r2) = webgl2 (device r)"
           "extStandardDerivatives (device r2) = extStandardDerivatives (device r)"
    by (simp_all add: r2_def setupRenderState_frame)
  have d3: "device r3 = device r2"
    unfolding r3_def renderFaces_eq by simp
  have d4: "device r4 = device r3"
    by (simp add: r4_def applyVsmBlur_frame)
  have "renderPass l camera r = restoreRenderState r4"
    by (simp add: renderPass_def Let_def r4_def r3_def r2_def)
  then show ?thesis using d2 d3 d4 by auto
qed

lemma restoreRenderState_bias:
  "(webgl2 (device r) \<longrightarrow> \<not> depthBias (device (restoreRenderState r)))
   \<and> (\<not> webgl2 (device r) \<and> extStandardDerivatives (device r) \<longrightarrow>
        polygonOffset (restoreRenderState r) = (0, 0)
      \<and> polygonOffsetId (restoreRenderState r) = Some (0, 0))
   \<and> (\<not> webgl2 (device r) \<and> \<not> extStandardDerivatives (device r) \<longrightarrow>
        device (restoreRenderState r) = device r
      \<and> polygonOffset (restoreRenderState r) = polygonOffset r
      \<and> polygonOffsetId (restoreRenderState r) = polygonOffsetId r)"
  by (simp add: restoreRenderState_def record_event_def setPolygonOffset_def)

lemma setupRenderState_standard:
  "\<not> blending (device (setupRenderState r l))
   \<and> depthWrite (device (setupRenderState r l))
   \<and> depthTest (device (setupRenderState r l))
   \<and> depthFunc (device (setupRenderState r l)) = FUNC_LESSEQUAL"
  by (simp add: setupRenderState_def record_event_def setPolygonOffset_def Let_def)

lemma setupRenderState_webgl2:
  assumes "webgl2 (device r)"
  shows "(if light_type l = LIGHTTYPE_OMNI \<and> \<not> clusteredLightingEnabled r
          then \<not> depthBias (device (setupRenderState r l))
          else depthBias (device (setupRenderState r l))
             \<and> depthBiasValues (device (setupRenderState r l))
                 = (shadowBias l * - 1000, shadowBias l * - 1000))
       \<and> polygonOffset (setupRenderState r l) = polygonOffset r
       \<and> polygonOffsetId (setupRenderState r l) = polygonOffsetId r"
  using assms by (simp add: setupRenderState_def record_event_def Let_def)

lemma setupRenderState_ext:
  assumes "\<not> webgl2 (device r)" "extStandardDerivatives (device r)"
  shows "polygonOffset (setupRenderState r l)
           = (if light_type l = LIGHTTYPE_OMNI then (0, 0)
              else (shadowBias l * - 1000, shadowBias l * - 1000))
       \<and> polygonOffsetId (setupRenderState r l) = Some (polygonOffset (setupRenderState r l))
       \<and> depthBias (device (setupRenderState r l)) = depthBias (device r)
       \<and> depthBiasValues (device (setupRenderState r l)) = depthBiasValues (device r)"
  using assms by (simp add: setupRenderState_def record_event_def setPolygonOffset_def Let_def)

lemma setupRenderState_neither:
  assumes "\<not> webgl2 (device r)" "\<not> extStandardDerivatives (device r)"
  shows "polygonOffset (setupRenderState r l) = polygonOffset r
       \<and> polygonOffsetId (setupRenderState r l) = polygonOffsetId r
       \<and> depthBias (device (setupRenderState r l)) = depthBias (device r)
       \<and> depthBiasValues (device (setupRenderState r l)) = depthBiasValues (device r)"
  using assms by (simp add: setupRenderState_def record_event_def Let_def)

text \<open>
  C8 (as stated, for every light whose shadow is rendered) fails on a device that has
  neither WebGL2 nor the standard-derivatives extension: for a spot light with bias
  \<open>0.05\<close>, \<open>setupRenderState\<close> enables no depth bias and sets no polygon offset.
\<close>

theorem setupRenderState_no_bias_without_capability:
  "light_type (exampleLight\<lparr>light_type := LIGHTTYPE_SPOT\<rparr>) = LIGHTTYPE_SPOT
   \<and> shadowBias (exampleLight\<lparr>light_type := LIGHTTYPE_SPOT\<rparr>) = 1 / 20
   \<and> \<not> depthBias (device (setupRenderState
          (exampleRenderer\<lparr>device := exampleDevice\<lparr>webgl2 := False, extStandardDerivatives := False\<rparr>\<rparr>)
          (exampleLight\<lparr>light_type := LIGHTTYPE_SPOT\<rparr>)))
   \<and> polygonOffsetId (setupRenderState
          (exampleRenderer\<lparr>device := exampleDevice\<lparr>webgl2 := False, extStandardDerivatives := False\<rparr>\<rparr>)
          (exampleLight\<lparr>light_type := LIGHTTYPE_SPOT\<rparr>)) = None
   \<and> polygonOffset (setupRenderState
          (exampleRenderer\<lparr>device := exampleDevice\<lparr>webgl2 := False, extStandardDerivatives := False\<rparr>\<rparr>)
          (exampleLight\<lparr>light_type := LIGHTTYPE_SPOT\<rparr>)) = (0, 0)"
  by (simp add: setupRenderState_def record_event_def Let_def exampleRenderer_def exampleDevice_def
        exampleLight_def)

text \<open>
  C8 (amended): \<open>setupRenderState\<close> disables blending and enables depth write and depth
  test with the less-or-equal comparator. On a WebGL2 device it enables the depth bias
  with both values \<open>shadowBias * -1000\<close>, except for an omni light in non-atlas mode,
  for which it disables the depth bias. On a device without WebGL2 but with the
  standard-derivatives extension it sets the polygon offset uniform to
  \<open>shadowBias * -1000\<close>, and to 0 for every omni light. On a device with neither it leaves
  bias and offset as they are. \<open>restoreRenderState\<close> disables the depth bias (WebGL2)
  or zeroes the polygon offset (extension); in a pass it runs last, after the faces and
  the blur, so that the pass ends with no bias of its own in effect.
\<close>

theorem render_state_bias:
  "\<not> blending (device (setupRenderState r l))
   \<and> depthWrite (device (setupRenderState r l))
   \<and> depthTest (device (setupRenderState r l))
   \<and> depthFunc (device (setupRenderState r l)) = FUNC_LESSEQUAL
   \<and> (webgl2 (device r) \<longrightarrow>
        (if light_type l = LIGHTTYPE_OMNI \<and> \<not> clusteredLightingEnabled r
         then \<not> depthBias (device (setupRenderState r l))
         else depthBias (device (setupRenderState r l))
            \<and> depthBiasValues (device (setupRenderState r l))
                = (shadowBias l * - 1000, shadowBias l * - 1000)))
   \<and> (\<not> webgl2 (device r) \<and> extStandardDerivatives (device r) \<longrightarrow>
        polygonOffset (setupRenderState r l)
          = (if light_type l = LIGHTTYPE_OMNI then (0, 0)
             else (shadowBias l * - 1000, shadowBias l * - 1000))
      \<and> polygonOffsetId (setupRenderState r l) = Some (polygonOffset (setupRenderState r l)))
   \<and> (\<not> webgl2 (device r) \<and> \<not> extStandardDerivatives (device r) \<longrightarrow>
        polygonOffset (setupRenderState r l) = polygonOffset r
      \<and> polygonOffsetId (setupRenderState r l) = polygonOffsetId r
      \<and> depthBias (device (setupRenderState r l)) = depthBias (device r)
      \<and> depthBiasValues (device (setupRenderState r l)) = depthBiasValues (device r))
   \<and> (webgl2 (device r) \<longrightarrow> \<not> depthBias (device (restoreRenderState r)))
   \<and> (\<not> webgl2 (device r) \<and> extStandardDerivatives (device r) \<longrightarrow>
        polygonOffset (restoreRenderState r) = (0, 0)
      \<and> polygonOffsetId (restoreRenderState r) = Some (0, 0))
   \<and> events (renderPass l camera r)
        = events r @ [SetupRenderState] @ map (faceEvent l camera r) [0..<numShadowFaces l]
          @ (if blurApplies l r then blurEvents l r else []) @ [RestoreRenderState]
   \<and> (webgl2 (device r) \<longrightarrow> \<not> depthBias (device (renderPass l camera r)))
   \<and> (\<not> webgl2 (device r) \<and> extStandardDerivatives (device r) \<longrightarrow>
        polygonOffset (renderPass l camera r) = (0, 0)
      \<and> polygonOffsetId (renderPass l camera r) = Some (0, 0))"
proof -
  obtain r4 where r4: "renderPass l camera r = restoreRenderState r4"
      "webgl2 (device r4) = webgl2 (device r)"
      "extStandardDerivatives (device r4) = extStandardDerivatives (device r)"
    using renderPass_restored by blast
  have pass: "(webgl2 (device r) \<longrightarrow> \<not> depthBias (device (renderPass l camera r)))
   \<and> (\<not> webgl2 (device r) \<and> extStandardDerivatives (device r) \<longrightarrow>
        polygonOffset (renderPass l camera r) = (0, 0)
      \<and> polygonOffsetId (renderPass l camera r) = Some (0, 0))"
    using restoreRenderState_bias [of r4] unfolding r4 by blast
  show ?thesis
    using setupRenderState_standard [of r l] setupRenderState_webgl2 [of r l]
      setupRenderState_ext [of r l] setupRenderState_neither [of r l]
      restoreRenderState_bias [of r] renderPass_events [of l camera r] pass
    by blast
qed

theorem render_state_bias_witness:
  "depthBias (device (setupRenderState exampleRenderer exampleLight))
   \<and> depthBiasValues (device (setupRenderState exampleRenderer exampleLight)) = (- 50, - 50)
   \<and> \<not> depthBias (device (setupRenderState exampleRenderer (exampleLight\<lparr>light_type := LIGHTTYPE_OMNI\<rparr>)))
   \<and> \<not> depthBias (device (renderPass exampleLight 0 exampleRenderer))
   \<and> polygonOffsetId (setupRenderState
          (exampleRenderer\<lparr>device := exampleDevice\<lparr>webgl2 := False\<rparr>\<rparr>) exampleLight) = Some (- 50, - 50)"
proof -
  have w: "webgl2 (device exampleRenderer)" "\<not> clusteredLightingEnabled exampleRenderer"
    by (simp_all add: exampleRenderer_def exampleDevice_def)
  have e: "\<not> webgl2 (device (exampleRenderer\<lparr>device := exampleDevice\<lparr>webgl2 := False\<rparr>\<rparr>))"
          "extStandardDerivatives (device (exampleRenderer\<lparr>device := exampleDevice\<lparr>webgl2 := False\<rparr>\<rparr>))"
    by (simp_all add: exampleDevice_def)
  have l: "light_type exampleLight \<noteq> LIGHTTYPE_OMNI" "shadowBias exampleLight * - 1000 = - 50"
    by (simp_all add: exampleLight_def LIGHTTYPE_OMNI_def LIGHTTYPE_DIRECTIONAL_def)
  show ?thesis
    using render_state_bias [of exampleRenderer exampleLight 0]
      render_state_bias [of exampleRenderer "exampleLight\<lparr>light_type := LIGHTTYPE_OMNI\<rparr>" 0]
      render_state_bias [of "exampleRenderer\<lparr>device := exampleDevice\<lparr>webgl2 := False\<rparr>\<rparr>" exampleLight 0]
      w e l
    by simp
qed

lemma cacheGet_resolution: "map_resolution (fst (cacheGet l r)) = shadowResolution l"
proof (cases "find (\<lambda>m. map_resolution m = shadowResolution l) (shadowMapCache r)")
  case None
  then show ?thesis by (simp add: cacheGet_def Let_def)
next
  case (Some m)
  then have "map_resolution m = shadowResolution l"
    by (auto simp add: find_Some_iff)
  then show ?thesis using Some by (simp add: cacheGet_def)
qed

lemma drawQuad_in_new_events:
  "(\<exists>t p. DrawQuad t p \<in> set (drop (length (events r)) (events (snd (render l camera r)))))
     \<longleftrightarrow> renderGuard l \<and> blurApplies l r"
proof -
  have face: "DrawQuad t p \<noteq> faceEvent l camera r face" for t p face
    by (simp add: faceEvent_def)
  have blur: "DrawQuad OrigShadowMap (0, 1 / real (shadowResolution l)) \<in> set (blurEvents l r)"
    by (simp add: blurEvents_def Let_def)
  show ?thesis
  proof (cases "renderGuard l \<and> blurApplies l r")
    case True
    then have "DrawQuad OrigShadowMap (0, 1 / real (shadowResolution l))
                 \<in> set (drop (length (events r)) (events (snd (render l camera r))))"
      unfolding render_events using blur by simp
    then show ?thesis using True by blast
  next
    case False
    then have "DrawQuad t p \<notin> set (drop (length (events r)) (events (snd (render l camera r))))" for t p
      unfolding render_events using face [of t p] by (auto simp add: image_iff)
    then show ?thesis using False by blast
  qed
qed

text \<open>
  C9: a call of \<open>render\<close> draws a blur quad exactly when its guard holds, the light is of
  a variance type, its blur size is above 1 and the light is non-atlas or directional.
  \<open>applyVsmBlur\<close> takes the temporary shadow map (of the light's resolution) from the
  cache, draws the horizontal pass into it and the vertical pass into the original map,
  and adds the temporary map back to the cache as its last action: when it returns, the
  map is among the free maps of the cache.
\<close>

theorem vsm_blur_only_when_supported:
  "((\<exists>t p. DrawQuad t p \<in> set (drop (length (events r)) (events (snd (render l camera r)))))
      \<longleftrightarrow> enabled l \<and> castShadows l \<and> shadowUpdateMode l \<noteq> SHADOWUPDATE_NONE
           \<and> visibleThisFrame l \<and> isVsm l \<and> vsmBlurSize l > 1
           \<and> (\<not> clusteredLightingEnabled r \<or> light_type l = LIGHTTYPE_DIRECTIONAL))
   \<and> events (applyVsmBlur l r)
       = events r
         @ [CacheGet (fst (cacheGet l r)),
            DrawQuad (TempTarget (fst (cacheGet l r))) (1 / real (shadowResolution l), 0),
            DrawQuad OrigShadowMap (0, 1 / real (shadowResolution l)),
            CacheAdd (fst (cacheGet l r))]
   \<and> map_resolution (fst (cacheGet l r)) = shadowResolution l
   \<and> shadowMapCache (applyVsmBlur l r) = shadowMapCache (snd (cacheGet l r)) @ [fst (cacheGet l r)]
   \<and> fst (cacheGet l r) \<in> set (shadowMapCache (applyVsmBlur l r))"
proof -
  have a: "(\<exists>t p. DrawQuad t p \<in> set (drop (length (events r)) (events (snd (render l camera r)))))
      \<longleftrightarrow> enabled l \<and> castShadows l \<and> shadowUpdateMode l \<noteq> SHADOWUPDATE_NONE
           \<and> visibleThisFrame l \<and> isVsm l \<and> vsmBlurSize l > 1
           \<and> (\<not> clusteredLightingEnabled r \<or> light_type l = LIGHTTYPE_DIRECTIONAL)"
    unfolding drawQuad_in_new_events renderGuard_def blurApplies_def by blast
  have b: "events (applyVsmBlur l r)
       = events r
         @ [CacheGet (fst (cacheGet l r)),
            DrawQuad (TempTarget (fst (cacheGet l r))) (1 / real (shadowResolution l), 0),
            DrawQuad OrigShadowMap (0, 1 / real (shadowResolution l)),
            CacheAdd (fst (cacheGet l r))]"
    unfolding applyVsmBlur_events blurEvents_def Let_def ..
  have c: "fst (cacheGet l r) \<in> set (shadowMapCache (applyVsmBlur l r))"
    unfolding applyVsmBlur_cache by simp
  show ?thesis
    using a b c cacheGet_resolution [of l r] applyVsmBlur_cache [of l r] by blast
qed

theorem vsm_blur_only_when_supported_witness:
  "(\<exists>t p. DrawQuad t p
       \<in> set (drop (length (events exampleRenderer)) (events (snd (render exampleLight 0 exampleRenderer)))))
   \<and> \<not> (\<exists>t p. DrawQuad t p
       \<in> set (drop (length (events exampleRenderer))
                 (events (snd (render (exampleLight\<lparr>vsmBlurSize := 1\<rparr>) 0 exampleRenderer)))))
   \<and> shadowMapCache (applyVsmBlur exampleLight exampleRenderer)
       = [\<lparr>map_id = 0, map_resolution = 1024\<rparr>]"
proof -
  have g: "enabled exampleLight \<and> castShadows exampleLight
           \<and> shadowUpdateMode exampleLight \<noteq> SHADOWUPDATE_NONE
           \<and> visibleThisFrame exampleLight \<and> isVsm exampleLight \<and> vsmBlurSize exampleLight > 1
           \<and> (\<not> clusteredLightingEnabled exampleRenderer
                \<or> light_type exampleLight = LIGHTTYPE_DIRECTIONAL)"
    by (simp add: exampleLight_def exampleRenderer_def SHADOWUPDATE_REALTIME_def SHADOWUPDATE_NONE_def)
  have c: "shadowMapCache (snd (cacheGet exampleLight exampleRenderer)) = []"
          "fst (cacheGet exampleLight exampleRenderer) = \<lparr>map_id = 0, map_resolution = 1024\<rparr>"
    by (simp_all add: cacheGet_def exampleRenderer_def exampleLight_def record_event_def Let_def)
  show ?thesis
    using vsm_blur_only_when_supported [of exampleRenderer exampleLight 0]
      vsm_blur_only_when_supported [of exampleRenderer "exampleLight\<lparr>vsmBlurSize := 1\<rparr>" 0] g c
    by simp
qed

lemma applyVsmBlur_weights:
  "blurVsmWeights (applyVsmBlur l r) k \<noteq> blurVsmWeights r k \<Longrightarrow> k = vsmBlurSize l"
  by (auto simp add: applyVsmBlur_def cacheAdd_def cacheGet_def record_event_def Let_def
        getVsmBlurShader_def case_prod_beta split: option.splits if_splits)

lemma restoreRenderState_weights:
  "blurVsmWeights (restoreRenderState r) = blurVsmWeights r"
  by (simp add: restoreRenderState_def record_event_def setPolygonOffset_def)

text \<open>
  \<open>render\<close> asks \<open>gaussWeights\<close> (through \<open>getVsmBlurShader\<close>) only for the light's
  blur size, and only when that size is above 1: the kernel size 1, for which the
  weight is NaN, is never requested.
\<close>

lemma render_weights_only_above_one:
  assumes "blurVsmWeights (snd (render l camera r)) k \<noteq> blurVsmWeights r k"
  shows "k = vsmBlurSize l \<and> 1 < k"
proof -
  have g: "renderGuard l"
  proof (rule ccontr)
    assume "\<not> renderGuard l"
    then have "render l camera r = (l, r)"
      unfolding render_def renderGuard_def by (simp only: if_False)
    then show False using assms by simp
  qed
  define l1 where "l1 = (if shadowUpdateMode l = SHADOWUPDATE_THISFRAME
                         then l\<lparr>shadowUpdateMode := SHADOWUPDATE_NONE\<rparr> else l)"
  define r2 where "r2 = setupRenderState (r\<lparr>shadowMapUpdates := shadowMapUpdates r + numShadowFaces l1\<rparr>) l1"
  define r3 where "r3 = fold (renderFace l1 camera) [0..<numShadowFaces l1] r2"
  have eq: "snd (render l camera r) = renderPass l1 camera r"
    using g by (simp add: render_def renderGuard_def l1_def Let_def)
  have w3: "blurVsmWeights r3 = blurVsmWeights r"
    unfolding r3_def renderFaces_eq by (simp add: r2_def setupRenderState_frame)
  have size: "vsmBlurSize l1 = vsmBlurSize l" by (simp add: l1_def)
  have pass: "renderPass l1 camera r
                = restoreRenderState (if isVsm l1 \<and> vsmBlurSize l1 > 1
                     then (if \<not> clusteredLightingEnabled r3 \<or> light_type l1 = LIGHTTYPE_DIRECTIONAL
                           then applyVsmBlur l1 r3 else r3)
                     else r3)"
    by (simp add: renderPass_def Let_def r3_def r2_def)
  show ?thesis
  proof (cases "isVsm l1 \<and> vsmBlurSize l1 > 1
                 \<and> (\<not> clusteredLightingEnabled r3 \<or> light_type l1 = LIGHTTYPE_DIRECTIONAL)")
    case True
    then have "blurVsmWeights (applyVsmBlur l1 r3) k \<noteq> blurVsmWeights r3 k"
      using assms unfolding eq pass by (simp add: restoreRenderState_weights w3)
    then have "k = vsmBlurSize l1" by (rule applyVsmBlur_weights)
    then show ?thesis using True size by simp
  next
    case False
    then have "blurVsmWeights (snd (render l camera r)) k = blurVsmWeights r k"
      unfolding eq pass by (auto simp add: restoreRenderState_weights w3)
    then show ?thesis using assms by simp
  qed
qed

section \<open>The depth range of a cascade\<close>

lemma depthLoop_Min_Max:
  "depthLoop T ps mn mx
     = (Min (set (mn # map (\<lambda>p. vz (T p)) ps)), Max (set (mx # map (\<lambda>p. vz (T p)) ps)))"
proof (induction ps arbitrary: mn mx)
  case Nil
  then show ?case by simp
next
  case (Cons p ps)
  have mn: "(if vz (T p) < mn then vz (T p) else mn) = min (vz (T p)) mn" by (simp add: min_def)
  have mx: "(if vz (T p) > mx then vz (T p) else mx) = max (vz (T p)) mx" by (simp add: max_def)
  have a: "Min (insert (min (vz (T p)) mn) S) = Min (insert mn (insert (vz (T p)) S))"
    if "finite S" for S :: "real set"
    using that by (cases "S = {}") (simp_all add: min.assoc min.commute min.left_commute)
  have b: "Max (insert (max (vz (T p)) mx) S) = Max (insert mx (insert (vz (T p)) S))"
    if "finite S" for S :: "real set"
    using that by (cases "S = {}") (simp_all add: max.assoc max.commute max.left_commute)
  show ?case
    by (simp add: Cons.IH Let_def mn mx a b del: Min_insert Max_insert)
qed

lemma getDepthRange_Min_Max:
  "range_min (getDepthRange T lo hi)
     = min 9999999999 (Min (set (map (\<lambda>p. vz (T p)) (aabbPoints lo hi))))"
  "range_max (getDepthRange T lo hi)
     = max (- 9999999999) (Max (set (map (\<lambda>p. vz (T p)) (aabbPoints lo hi))))"
proof -
  have ne: "set (map (\<lambda>p. vz (T p)) (aabbPoints lo hi)) \<noteq> {}"
    by (simp add: aabbPoints_def)
  show "range_min (getDepthRange T lo hi)
     = min 9999999999 (Min (set (map (\<lambda>p. vz (T p)) (aabbPoints lo hi))))"
    unfolding getDepthRange_def depthLoop_Min_Max using ne
    by (simp del: set_map)
  show "range_max (getDepthRange T lo hi)
     = max (- 9999999999) (Max (set (map (\<lambda>p. vz (T p)) (aabbPoints lo hi))))"
    unfolding getDepthRange_def depthLoop_Min_Max using ne
    by (simp del: set_map)
qed


lemma aabbLoop_False:
  "aabbLoop ms False b = fold (\<lambda>m b. bb_add b (aabb m)) ms b"
  by (induction ms arbitrary: b) simp_all

lemma fold_bb_add_min:
  assumes g: "\<And>b c. g (bb_add b c) = min (g b) (g c :: real)"
  shows "g (fold (\<lambda>m b. bb_add b (aabb m)) ms b) = Min (insert (g b) ((\<lambda>m. g (aabb m)) ` set ms))"
proof (induction ms arbitrary: b)
  case Nil
  then show ?case by simp
next
  case (Cons m ms)
  have mn: "Min (insert (min a c) S) = Min (insert a (insert c S))" if "finite S"
    for a c :: real and S
    using that by (cases "S = {}") (simp_all add: min.assoc min.commute min.left_commute)
  have "g (fold (\<lambda>m b. bb_add b (aabb m)) (m # ms) b)
          = g (fold (\<lambda>m b. bb_add b (aabb m)) ms (bb_add b (aabb m)))"
    by simp
  also have "\<dots> = Min (insert (min (g b) (g (aabb m))) ((\<lambda>m. g (aabb m)) ` set ms))"
    unfolding Cons.IH g ..
  also have "\<dots> = Min (insert (g b) ((\<lambda>m. g (aabb m)) ` set (m # ms)))"
    by (simp add: mn del: Min_insert)
  finally show ?case .
qed

lemma fold_bb_add_max:
  assumes g: "\<And>b c. g (bb_add b c) = max (g b) (g c :: real)"
  shows "g (fold (\<lambda>m b. bb_add b (aabb m)) ms b) = Max (insert (g b) ((\<lambda>m. g (aabb m)) ` set ms))"
proof (induction ms arbitrary: b)
  case Nil
  then show ?case by simp
next
  case (Cons m ms)
  have mx: "Max (insert (max a c) S) = Max (insert a (insert c S))" if "finite S"
    for a c :: real and S
    using that by (cases "S = {}") (simp_all add: max.assoc max.commute max.left_commute)
  have "g (fold (\<lambda>m b. bb_add b (aabb m)) (m # ms) b)
          = g (fold (\<lambda>m b. bb_add b (aabb m)) ms (bb_add b (aabb m)))"
    by simp
  also have "\<dots> = Max (insert (max (g b) (g (aabb m))) ((\<lambda>m. g (aabb m)) ` set ms))"
    unfolding Cons.IH g ..
  also have "\<dots> = Max (insert (g b) ((\<lambda>m. g (aabb m)) ` set (m # ms)))"
    by (simp add: mx del: Max_insert)
  finally show ?case .
qed

lemma fold_bb_add_coords:
  "vx (getMin (fold (\<lambda>m b. bb_add b (aabb m)) ms b))
     = Min (insert (vx (getMin b)) ((\<lambda>m. vx (getMin (aabb m))) ` set ms))"
  "vy (getMin (fold (\<lambda>m b. bb_add b (aabb m)) ms b))
     = Min (insert (vy (getMin b)) ((\<lambda>m. vy (getMin (aabb m))) ` set ms))"
  "vz (getMin (fold (\<lambda>m b. bb_add b (aabb m)) ms b))
     = Min (insert (vz (getMin b)) ((\<lambda>m. vz (getMin (aabb m))) ` set ms))"
  "vx (getMax (fold (\<lambda>m b. bb_add b (aabb m)) ms b))
     = Max (insert (vx (getMax b)) ((\<lambda>m. vx (getMax (aabb m))) ` set ms))"
  "vy (getMax (fold (\<lambda>m b. bb_add b (aabb m)) ms b))
     = Max (insert (vy (getMax b)) ((\<lambda>m. vy (getMax (aabb m))) ` set ms))"
  "vz (getMax (fold (\<lambda>m b. bb_add b (aabb m)) ms b))
     = Max (insert (vz (getMax b)) ((\<lambda>m. vz (getMax (aabb m))) ` set ms))"
  using fold_bb_add_min [of "\<lambda>b. vx (getMin b)" ms b]
        fold_bb_add_min [of "\<lambda>b. vy (getMin b)" ms b]
        fold_bb_add_min [of "\<lambda>b. vz (getMin b)" ms b]
        fold_bb_add_max [of "\<lambda>b. vx (getMax b)" ms b]
        fold_bb_add_max [of "\<lambda>b. vy (getMax b)" ms b]
        fold_bb_add_max [of "\<lambda>b. vz (getMax b)" ms b]
  by (simp_all add: bb_add_def vec_def del: Min_insert Max_insert)

lemma aabbLoop_union:
  assumes "casters \<noteq> []"
  shows "aabbLoop casters True b = unionAabb casters"
proof -
  obtain m ms where c: "casters = m # ms" using assms by (cases casters) auto
  have "aabbLoop casters True b = fold (\<lambda>m b. bb_add b (aabb m)) ms (aabb m)"
    by (simp add: c aabbLoop_False)
  also have "\<dots> = unionAabb casters"
    by (simp add: unionAabb_def c fold_bb_add_coords vec_def del: Min_insert Max_insert)
  finally show ?thesis .
qed

lemma worldToLocal_translateLocal_z:
  "vz (worldToLocal (translateLocal n 0 0 t) p)
     = vz (worldToLocal n p) - t * vdot (forward n) (forward n)"
  by (simp add: worldToLocal_def translateLocal_def vdot_def vadd_def vsub_def vmulScalar_def
        vec_def Let_def algebra_simps)


lemma tightenDepthRange_nonempty:
  assumes "casters \<noteq> []"
  shows "tightenDepthRange st shadowCam casters
           = (let dr = getDepthRange (worldToLocal (node shadowCam))
                          (getMin (unionAabb casters)) (getMax (unionAabb casters))
              in (st\<lparr>visibleSceneAabb := unionAabb casters\<rparr>,
                  shadowCam\<lparr>node := translateLocal (node shadowCam) 0 0 (range_max dr + 0.1),
                             farClip := range_max dr - range_min dr + 0.2\<rparr>))"
  by (simp add: tightenDepthRange_def aabbLoop_union [OF assms] Let_def)

lemma cornerDepths_range:
  "range_min (getDepthRange (worldToLocal n) (getMin box) (getMax box))
     = min 9999999999 (Min (set (cornerDepths n box)))"
  "range_max (getDepthRange (worldToLocal n) (getMin box) (getMax box))
     = max (- 9999999999) (Max (set (cornerDepths n box)))"
  unfolding cornerDepths_def by (rule getDepthRange_Min_Max)+

lemma cornerDepths_nonempty: "set (cornerDepths n box) \<noteq> {}"
  by (simp add: cornerDepths_def aabbPoints_def)

lemma tightenDepthRange_tight:
  assumes ne: "casters \<noteq> []"
      and unit: "vdot (forward (node shadowCam)) (forward (node shadowCam)) = 1"
      and near0: "nearClip shadowCam = 0"
      and lo: "Min (set (cornerDepths (node shadowCam) (unionAabb casters))) \<le> 9999999999"
      and hi: "- 9999999999 \<le> Max (set (cornerDepths (node shadowCam) (unionAabb casters)))"
  shows "visibleSceneAabb (fst (tightenDepthRange st shadowCam casters)) = unionAabb casters
       \<and> node (snd (tightenDepthRange st shadowCam casters))
           = translateLocal (node shadowCam) 0 0
               (Max (set (cornerDepths (node shadowCam) (unionAabb casters))) + 0.1)
       \<and> farClip (snd (tightenDepthRange st shadowCam casters))
           = Max (set (cornerDepths (node shadowCam) (unionAabb casters)))
             - Min (set (cornerDepths (node shadowCam) (unionAabb casters))) + 0.2
       \<and> nearClip (snd (tightenDepthRange st shadowCam casters)) = 0
       \<and> (\<forall>p \<in> set (aabbPoints (getMin (unionAabb casters)) (getMax (unionAabb casters))).
             nearClip (snd (tightenDepthRange st shadowCam casters)) + 0.1
               \<le> - vz (worldToLocal (node (snd (tightenDepthRange st shadowCam casters))) p)
           \<and> - vz (worldToLocal (node (snd (tightenDepthRange st shadowCam casters))) p)
               \<le> farClip (snd (tightenDepthRange st shadowCam casters)) - 0.1)
       \<and> (\<exists>p \<in> set (aabbPoints (getMin (unionAabb casters)) (getMax (unionAabb casters))).
             - vz (worldToLocal (node (snd (tightenDepthRange st shadowCam casters))) p)
               = nearClip (snd (tightenDepthRange st shadowCam casters)) + 0.1)
       \<and> (\<exists>p \<in> set (aabbPoints (getMin (unionAabb casters)) (getMax (unionAabb casters))).
             - vz (worldToLocal (node (snd (tightenDepthRange st shadowCam casters))) p)
               = farClip (snd (tightenDepthRange st shadowCam casters)) - 0.1)"
proof -
  define n where "n = node shadowCam"
  define box where "box = unionAabb casters"
  define zs where "zs = cornerDepths n box"
  define zmin where "zmin = Min (set zs)"
  define zmax where "zmax = Max (set zs)"
  define cam' where "cam' = snd (tightenDepthRange st shadowCam casters)"
  have fin: "finite (set zs)" by simp
  have nonempty: "set zs \<noteq> {}"
    unfolding zs_def by (rule cornerDepths_nonempty)
  have rmin: "range_min (getDepthRange (worldToLocal n) (getMin box) (getMax box)) = zmin"
    using lo by (simp add: cornerDepths_range zs_def zmin_def n_def box_def)
  have rmax: "range_max (getDepthRange (worldToLocal n) (getMin box) (getMax box)) = zmax"
    using hi by (simp add: cornerDepths_range zs_def zmax_def n_def box_def)
  have res: "tightenDepthRange st shadowCam casters
               = (st\<lparr>visibleSceneAabb := box\<rparr>,
                  shadowCam\<lparr>node := translateLocal n 0 0 (zmax + 0.1),
                             farClip := zmax - zmin + 0.2\<rparr>)"
    unfolding tightenDepthRange_nonempty [OF ne] Let_def
    using rmin rmax by (simp add: n_def box_def)
  have nd: "node cam' = translateLocal n 0 0 (zmax + 0.1)"
    and fc: "farClip cam' = zmax - zmin + 0.2"
    and nc: "nearClip cam' = 0"
    by (simp_all add: cam'_def res near0)
  have depth: "- vz (worldToLocal (node cam') p) = zmax + 0.1 - vz (worldToLocal n p)" for p
    unfolding nd worldToLocal_translateLocal_z using unit by (simp add: n_def)
  have zin: "vz (worldToLocal n p) \<in> set zs" if "p \<in> set (aabbPoints (getMin box) (getMax box))" for p
    using that by (simp add: zs_def cornerDepths_def)
  have bounds: "nearClip cam' + 0.1 \<le> - vz (worldToLocal (node cam') p)
              \<and> - vz (worldToLocal (node cam') p) \<le> farClip cam' - 0.1"
    if p: "p \<in> set (aabbPoints (getMin box) (getMax box))" for p
  proof -
    have "zmin \<le> vz (worldToLocal n p)" "vz (worldToLocal n p) \<le> zmax"
      using zin [OF p] fin by (simp_all add: zmin_def zmax_def)
    then show ?thesis unfolding depth nc fc by simp
  qed
  have "zmax \<in> set zs" unfolding zmax_def using fin nonempty by (rule Max_in)
  then obtain pmax where pmax: "pmax \<in> set (aabbPoints (getMin box) (getMax box))"
      "vz (worldToLocal n pmax) = zmax"
    by (auto simp add: zs_def cornerDepths_def)
  have "zmin \<in> set zs" unfolding zmin_def using fin nonempty by (rule Min_in)
  then obtain pmin where pmin: "pmin \<in> set (aabbPoints (getMin box) (getMax box))"
      "vz (worldToLocal n pmin) = zmin"
    by (auto simp add: zs_def cornerDepths_def)
  have nearest: "\<exists>p \<in> set (aabbPoints (getMin box) (getMax box)).
                   - vz (worldToLocal (node cam') p) = nearClip cam' + 0.1"
    using pmax unfolding depth nc by (intro bexI [of _ pmax]) simp_all
  have farthest: "\<exists>p \<in> set (aabbPoints (getMin box) (getMax box)).
                   - vz (worldToLocal (node cam') p) = farClip cam' - 0.1"
    using pmin unfolding depth fc by (intro bexI [of _ pmin]) simp_all
  have box': "visibleSceneAabb (fst (tightenDepthRange st shadowCam casters)) = box"
    by (simp add: res)
  show ?thesis
    using box' nd fc nc bounds nearest farthest
    unfolding cam'_def box_def zmax_def zmin_def zs_def n_def by blast
qed


lemma exampleNode_depth: "vz (worldToLocal exampleNode p) = vz p"
  by (simp add: worldToLocal_def exampleNode_def vdot_def vsub_def vec_def Let_def)

lemma exampleNode_depthRange:
  "getDepthRange (worldToLocal exampleNode) lo hi
     = \<lparr>range_min = min (vz lo) (min (vz hi) 9999999999),
        range_max = max (vz lo) (max (vz hi) (- 9999999999))\<rparr>"
  by (simp add: getDepthRange_def aabbPoints_def exampleNode_depth vec_def Let_def min_def max_def)

section \<open>The bounding box kept between cascades\<close>

lemma tightenDepthRange_empty:
  "tightenDepthRange st shadowCam []
     = (let dr = getDepthRange (worldToLocal (node shadowCam))
                    (getMin (visibleSceneAabb st)) (getMax (visibleSceneAabb st))
        in (st, shadowCam\<lparr>node := translateLocal (node shadowCam) 0 0 (range_max dr + 0.1),
                         farClip := range_max dr - range_min dr + 0.2\<rparr>))"
  by (simp add: tightenDepthRange_def Let_def)

lemma tightenDepthRange_box:
  "visibleSceneAabb (fst (tightenDepthRange st shadowCam casters))
     = (if casters = [] then visibleSceneAabb st else unionAabb casters)"
  by (cases "casters = []") (simp_all add: tightenDepthRange_empty tightenDepthRange_nonempty Let_def)

lemma positionShadowCamera_box:
  "visibleSceneAabb (fst (positionShadowCamera env l cascade st shadowCam)) = visibleSceneAabb st"
  by (simp add: positionShadowCamera_def Let_def)

lemma cullCascade_unfold:
  "cullCascade env l cascade (st, drawCalls, renderData)
     = (let p = positionShadowCamera env l cascade st (shadowCamera (renderData cascade));
            c = cullShadowCasters (isVisible env) drawCalls
                  (visibleCasters (renderData cascade)) (snd p);
            t = tightenDepthRange (fst p) (snd p) (snd c)
        in (fst t, fst c,
            renderData(cascade := \<lparr>shadowCamera = snd t, visibleCasters = snd c\<rparr>)))"
  by (simp add: cullCascade_def Let_def case_prod_beta)

lemma cullCascade_box:
  assumes "cullCascade env l cascade (st, drawCalls, renderData) = (st', drawCalls', renderData')"
  shows "visibleSceneAabb st'
           = (if visibleCasters (renderData' cascade) = [] then visibleSceneAabb st
              else unionAabb (visibleCasters (renderData' cascade)))"
  using assms unfolding cullCascade_unfold Let_def
  by (auto simp add: tightenDepthRange_box positionShadowCamera_box)

lemma cullCascade_other:
  assumes "cullCascade env l cascade (st, drawCalls, renderData) = (st', drawCalls', renderData')"
      and "c \<noteq> cascade"
  shows "renderData' c = renderData c"
  using assms unfolding cullCascade_unfold Let_def by auto

lemma cullCascade_empty_camera:
  assumes "cullCascade env l cascade (st, drawCalls, renderData) = (st', drawCalls', renderData')"
      and "visibleCasters (renderData' cascade) = []"
  shows "shadowCamera (renderData' cascade)
           = (let cam1 = snd (positionShadowCamera env l cascade st (shadowCamera (renderData cascade)));
                  dr = getDepthRange (worldToLocal (node cam1))
                         (getMin (visibleSceneAabb st)) (getMax (visibleSceneAabb st))
              in cam1\<lparr>node := translateLocal (node cam1) 0 0 (range_max dr + 0.1),
                      farClip := range_max dr - range_min dr + 0.2\<rparr>)"
  using assms unfolding cullCascade_unfold Let_def
  by (auto simp add: tightenDepthRange_empty positionShadowCamera_box Let_def)

lemma find_Some_mem: "find P xs = Some x \<Longrightarrow> x \<in> set xs"
  by (induction xs) (auto split: if_splits)

lemma fold_cullCascade_box:
  assumes "distinct cs"
      and "fold (cullCascade env l) cs (st, drawCalls, renderData) = (st', drawCalls', renderData')"
  shows "visibleSceneAabb st'
           = (case find (\<lambda>c. visibleCasters (renderData' c) \<noteq> []) (rev cs) of
                None \<Rightarrow> visibleSceneAabb st
              | Some c \<Rightarrow> unionAabb (visibleCasters (renderData' c)))"
  using assms
proof (induction cs arbitrary: st' drawCalls' renderData' rule: rev_induct)
  case Nil
  then show ?case by simp
next
  case (snoc c cs)
  obtain st1 dc1 rd1 where mid: "fold (cullCascade env l) cs (st, drawCalls, renderData) = (st1, dc1, rd1)"
    by (cases "fold (cullCascade env l) cs (st, drawCalls, renderData)") auto
  have step: "cullCascade env l c (st1, dc1, rd1) = (st', drawCalls', renderData')"
    using snoc.prems(2) mid by simp
  have d: "distinct cs" and notin: "c \<notin> set cs" using snoc.prems(1) by simp_all
  have IH: "visibleSceneAabb st1
           = (case find (\<lambda>c. visibleCasters (rd1 c) \<noteq> []) (rev cs) of
                None \<Rightarrow> visibleSceneAabb st
              | Some c \<Rightarrow> unionAabb (visibleCasters (rd1 c)))"
    using snoc.IH [OF d mid] .
  have same: "renderData' c' = rd1 c'" if "c' \<in> set cs" for c'
  proof -
    have "c' \<noteq> c" using that notin by auto
    then show ?thesis by (rule cullCascade_other [OF step])
  qed
  have f: "find (\<lambda>c. visibleCasters (renderData' c) \<noteq> []) (rev cs)
             = find (\<lambda>c. visibleCasters (rd1 c) \<noteq> []) (rev cs)"
    by (rule find_cong) (simp_all add: same)
  show ?case
  proof (cases "visibleCasters (renderData' c) = []")
    case True
    then have "visibleSceneAabb st' = visibleSceneAabb st1"
      using cullCascade_box [OF step] by simp
    also have "\<dots> = (case find (\<lambda>c. visibleCasters (renderData' c) \<noteq> []) (rev cs) of
                None \<Rightarrow> visibleSceneAabb st
              | Some c \<Rightarrow> unionAabb (visibleCasters (rd1 c)))"
      unfolding IH f ..
    also have "\<dots> = (case find (\<lambda>c. visibleCasters (renderData' c) \<noteq> []) (rev cs) of
                None \<Rightarrow> visibleSceneAabb st
              | Some c \<Rightarrow> unionAabb (visibleCasters (renderData' c)))"
    proof (cases "find (\<lambda>c. visibleCasters (renderData' c) \<noteq> []) (rev cs)")
      case None
      then show ?thesis by simp
    next
      case (Some c0)
      then have "c0 \<in> set cs" using find_Some_mem [OF Some] by simp
      then show ?thesis using Some same by simp
    qed
    finally show ?thesis using True by simp
  next
    case False
    then show ?thesis using cullCascade_box [OF step] by simp
  qed
qed


text \<open>
  C10: when the list of visible casters of a cascade is empty, the loop over the casters
  leaves \<^verbatim>\<open>visibleSceneAabb\<close> as it is, and the cascade's camera translation and far
  clip are computed from that stored box (seen from the cascade's camera). The stored
  box is the union of the boxes of the most recent cascade that had visible casters:
  after any run of cascades it is the box of the last one among them whose list is not
  empty, and the box from before the run (of an earlier call) when there is none; so
  it is after \<open>cullDirectional\<close>.
\<close>

theorem stale_bounding_box_for_empty_cascade:
  "tightenDepthRange st shadowCam []
     = (let dr = getDepthRange (worldToLocal (node shadowCam))
                    (getMin (visibleSceneAabb st)) (getMax (visibleSceneAabb st))
        in (st, shadowCam\<lparr>node := translateLocal (node shadowCam) 0 0 (range_max dr + 0.1),
                         farClip := range_max dr - range_min dr + 0.2\<rparr>))
   \<and> (\<forall>st' drawCalls' renderData'.
         cullCascade env l cascade (st, drawCalls, renderData) = (st', drawCalls', renderData')
         \<and> visibleCasters (renderData' cascade) = [] \<longrightarrow>
           visibleSceneAabb st' = visibleSceneAabb st
         \<and> shadowCamera (renderData' cascade)
             = (let cam1 = snd (positionShadowCamera env l cascade st
                                  (shadowCamera (renderData cascade)));
                    dr = getDepthRange (worldToLocal (node cam1))
                           (getMin (visibleSceneAabb st)) (getMax (visibleSceneAabb st))
                in cam1\<lparr>node := translateLocal (node cam1) 0 0 (range_max dr + 0.1),
                        farClip := range_max dr - range_min dr + 0.2\<rparr>))
   \<and> (\<forall>cs st' drawCalls' renderData'.
         distinct cs
         \<and> fold (cullCascade env l) cs (st, drawCalls, renderData) = (st', drawCalls', renderData')
         \<longrightarrow> visibleSceneAabb st'
               = (case find (\<lambda>c. visibleCasters (renderData' c) \<noteq> []) (rev cs) of
                    None \<Rightarrow> visibleSceneAabb st
                  | Some c \<Rightarrow> unionAabb (visibleCasters (renderData' c))))
   \<and> (\<forall>l2 st' drawCalls' renderData'.
         cullDirectional env l drawCalls st renderData = (l2, st', drawCalls', renderData')
         \<longrightarrow> visibleSceneAabb st'
               = (case find (\<lambda>c. visibleCasters (renderData' c) \<noteq> []) (rev [0..<numCascades l2]) of
                    None \<Rightarrow> visibleSceneAabb st
                  | Some c \<Rightarrow> unionAabb (visibleCasters (renderData' c))))"
proof -
  have a: "\<forall>st' drawCalls' renderData'.
         cullCascade env l cascade (st, drawCalls, renderData) = (st', drawCalls', renderData')
         \<and> visibleCasters (renderData' cascade) = [] \<longrightarrow>
           visibleSceneAabb st' = visibleSceneAabb st
         \<and> shadowCamera (renderData' cascade)
             = (let cam1 = snd (positionShadowCamera env l cascade st
                                  (shadowCamera (renderData cascade)));
                    dr = getDepthRange (worldToLocal (node cam1))
                           (getMin (visibleSceneAabb st)) (getMax (visibleSceneAabb st))
                in cam1\<lparr>node := translateLocal (node cam1) 0 0 (range_max dr + 0.1),
                        farClip := range_max dr - range_min dr + 0.2\<rparr>)"
    using cullCascade_box cullCascade_empty_camera by (intro allI impI) (metis (no_types, lifting))
  have b: "\<forall>cs st' drawCalls' renderData'.
         distinct cs
         \<and> fold (cullCascade env l) cs (st, drawCalls, renderData) = (st', drawCalls', renderData')
         \<longrightarrow> visibleSceneAabb st'
               = (case find (\<lambda>c. visibleCasters (renderData' c) \<noteq> []) (rev cs) of
                    None \<Rightarrow> visibleSceneAabb st
                  | Some c \<Rightarrow> unionAabb (visibleCasters (renderData' c)))" for l
    using fold_cullCascade_box by blast
  have c: "visibleSceneAabb st'
               = (case find (\<lambda>c. visibleCasters (renderData' c) \<noteq> []) (rev [0..<numCascades l2]) of
                    None \<Rightarrow> visibleSceneAabb st
                  | Some c \<Rightarrow> unionAabb (visibleCasters (renderData' c)))"
    if run: "cullDirectional env l drawCalls st renderData = (l2, st', drawCalls', renderData')"
    for l2 st' drawCalls' renderData'
  proof -
    define l1 where "l1 = generateSplitDistances (l\<lparr>visibleThisFrame := True\<rparr>)
                            (cameraNearClip env) (shadowDistance (l\<lparr>visibleThisFrame := True\<rparr>))"
    have "cullDirectional env l drawCalls st renderData
            = (l1, fold (cullCascade env l1) [0..<numCascades l1] (st, drawCalls, renderData))"
      by (simp add: cullDirectional_def Let_def l1_def case_prod_beta)
    with run have "(l1, fold (cullCascade env l1) [0..<numCascades l1] (st, drawCalls, renderData))
                      = (l2, st', drawCalls', renderData')"
      by (simp only:)
    then have "l2 = l1"
      and "fold (cullCascade env l1) [0..<numCascades l1] (st, drawCalls, renderData)
             = (st', drawCalls', renderData')"
      by blast+
    then show ?thesis
      using fold_cullCascade_box [of "[0..<numCascades l1]" env l1 st drawCalls renderData] by simp
  qed
  show ?thesis
    using tightenDepthRange_empty [of st shadowCam] a b [of l] c by blast
qed


theorem stale_bounding_box_for_empty_cascade_witness:
  "tightenDepthRange exampleState exampleCamera []
     = (exampleState,
        exampleCamera\<lparr>node := exampleNode\<lparr>position := vec 0 0 (6 / 10)\<rparr>, farClip := 12 / 10\<rparr>)
   \<and> visibleSceneAabb (fst (cullCascade exampleEnv exampleLight 0 (exampleState, [], exampleRenderData)))
       = visibleSceneAabb exampleState"
proof -
  note t = stale_bounding_box_for_empty_cascade
             [of exampleState exampleCamera exampleEnv exampleLight 0 "[]" exampleRenderData]
  define s where "s = cullCascade exampleEnv exampleLight 0 (exampleState, [], exampleRenderData)"
  have empty: "visibleCasters ((snd (snd s)) 0) = []"
    by (simp add: s_def cullCascade_unfold Let_def cullShadowCasters_visible depthSort_Nil)
  have run: "cullCascade exampleEnv exampleLight 0 (exampleState, [], exampleRenderData)
               = (fst s, fst (snd s), snd (snd s))"
    by (simp add: s_def)
  from t run empty have box: "visibleSceneAabb (fst s) = visibleSceneAabb exampleState"
    by blast
  have tr: "translateLocal exampleNode 0 0 (6 / 10) = exampleNode\<lparr>position := vec 0 0 (6 / 10)\<rparr>"
    by (simp add: translateLocal_def exampleNode_def vadd_def vmulScalar_def vec_def)
  from t have "tightenDepthRange exampleState exampleCamera []
     = (let dr = getDepthRange (worldToLocal (node exampleCamera))
                    (getMin (visibleSceneAabb exampleState)) (getMax (visibleSceneAabb exampleState))
        in (exampleState,
            exampleCamera\<lparr>node := translateLocal (node exampleCamera) 0 0 (range_max dr + 0.1),
                            farClip := range_max dr - range_min dr + 0.2\<rparr>))"
    by blast
  then have "tightenDepthRange exampleState exampleCamera []
     = (exampleState,
        exampleCamera\<lparr>node := exampleNode\<lparr>position := vec 0 0 (6 / 10)\<rparr>, farClip := 12 / 10\<rparr>)"
    using tr by (simp add: exampleCamera_def exampleNode_depthRange exampleState_def vec_def Let_def)
  then show ?thesis using box by (simp add: s_def)
qed

section \<open>The snapped centre of a cascade\<close>


lemma positionShadowCamera_node:
  "node (snd (positionShadowCamera env l cascade st shadowCam))
     = translateLocal
         \<lparr>position = center (fst (positionShadowCamera env l cascade st shadowCam)),
          right = shadowRight env, up = shadowUp env, forward = shadowForward env\<rparr>
         0 0 1000000"
  by (simp add: positionShadowCamera_def Let_def)




lemma snap_idem:
  assumes "ratio \<noteq> 0"
  shows "snap (snap p ratio) ratio = snap p ratio"
  using assms by (simp add: snap_def)

lemma snapCenter_projections:
  assumes "orthonormal n"
  shows "vdot (snapCenter n c ratio) (up n) = snap (vdot c (up n)) ratio"
    and "vdot (snapCenter n c ratio) (right n) = snap (vdot c (right n)) ratio"
    and "vdot (snapCenter n c ratio) (forward n) = vdot c (forward n)"
proof -
  have o: "vx (right n) * vx (right n) + vy (right n) * vy (right n) + vz (right n) * vz (right n) = 1"
          "vx (up n) * vx (up n) + vy (up n) * vy (up n) + vz (up n) * vz (up n) = 1"
          "vx (forward n) * vx (forward n) + vy (forward n) * vy (forward n) + vz (forward n) * vz (forward n) = 1"
          "vx (right n) * vx (up n) + vy (right n) * vy (up n) + vz (right n) * vz (up n) = 0"
          "vx (right n) * vx (forward n) + vy (right n) * vy (forward n) + vz (right n) * vz (forward n) = 0"
          "vx (up n) * vx (forward n) + vy (up n) * vy (forward n) + vz (up n) * vz (forward n) = 0"
    using assms by (simp_all add: orthonormal_def vdot_def)
  have lin: "vdot (vadd (vadd (vmulScalar u a) (vmulScalar r b)) (vmulScalar f d)) w
               = a * vdot u w + b * vdot r w + d * vdot f w" for u r f w a b d
    by (simp add: vdot_def vadd_def vmulScalar_def vec_def algebra_simps)
  have sym: "vdot a b = vdot b a" for a b by (simp add: vdot_def mult.commute)
  have uu: "vdot (up n) (up n) = 1" and rr: "vdot (right n) (right n) = 1"
    and ff: "vdot (forward n) (forward n) = 1" and ru: "vdot (right n) (up n) = 0"
    and rf: "vdot (right n) (forward n) = 0" and uf: "vdot (up n) (forward n) = 0"
    using assms by (simp_all add: orthonormal_def)
  show "vdot (snapCenter n c ratio) (up n) = snap (vdot c (up n)) ratio"
    unfolding snapCenter_def Let_def lin by (simp add: uu ru sym [of "forward n" "up n"] uf)
  show "vdot (snapCenter n c ratio) (right n) = snap (vdot c (right n)) ratio"
    unfolding snapCenter_def Let_def lin
    by (simp add: rr sym [of "up n" "right n"] ru sym [of "forward n" "right n"] rf)
  show "vdot (snapCenter n c ratio) (forward n) = vdot c (forward n)"
    unfolding snapCenter_def Let_def lin by (simp add: ff uf rf)
qed

lemma snapCenter_idem:
  assumes "orthonormal n" "ratio \<noteq> 0"
  shows "snapCenter n (snapCenter n c ratio) ratio = snapCenter n c ratio"
proof -
  have "snapCenter n (snapCenter n c ratio) ratio
          = (let x = snap (snap (vdot c (up n)) ratio) ratio;
                 y = snap (snap (vdot c (right n)) ratio) ratio;
                 d = vdot c (forward n)
             in vadd (vadd (vmulScalar (up n) x) (vmulScalar (right n) y)) (vmulScalar (forward n) d))"
    unfolding snapCenter_def [of n "snapCenter n c ratio"] snapCenter_projections [OF assms(1)] Let_def ..
  also have "\<dots> = snapCenter n c ratio"
    by (simp add: snap_idem [OF assms(2)] snapCenter_def Let_def)
  finally show ?thesis .
qed



section \<open>The depth range of a cascade, in the cascade loop\<close>

lemma positionShadowCamera_clip:
  "nearClip (snd (positionShadowCamera env l cascade st shadowCam)) = 0"
  "farClip (snd (positionShadowCamera env l cascade st shadowCam)) = 2000000"
  "forward (node (snd (positionShadowCamera env l cascade st shadowCam))) = shadowForward env"
  by (simp_all add: positionShadowCamera_def translateLocal_def Let_def)

lemma example_frustumCenter:
  "frustumCenter (map (\<lambda>p. p) (take 8 (getPoints exampleEnv 1 100))) = vec 0 0 (- 101 / 2)"
  by (simp add: frustumCenter_def exampleEnv_def vadd_def vmulScalar_def vec_def)

lemma example_positioned:
  "node (snd (positionShadowCamera exampleEnv singleCascadeLight 0 st shadowCam))
     = exampleNode\<lparr>position := vec 0 0 (1999899 / 2)\<rparr>"
  "nearClip (snd (positionShadowCamera exampleEnv singleCascadeLight 0 st shadowCam)) = 0"
proof -
  have dists: "frustumNearDist singleCascadeLight 1 0 = 1" "frustumFarDist singleCascadeLight 0 = 100"
    by (simp_all add: frustumNearDist_def frustumFarDist_def singleCascadeLight_def)
  have env: "cameraNearClip exampleEnv = 1" "cameraWorldMat exampleEnv = (\<lambda>p. p)"
    "lightPosition exampleEnv = vec 0 10 0" "shadowRight exampleEnv = vec 1 0 0"
    "shadowUp exampleEnv = vec 0 1 0" "shadowForward exampleEnv = vec 0 0 (- 1)"
    by (simp_all add: exampleEnv_def)
  have snapped: "snapCenter \<lparr>position = vec 0 10 0, right = vec 1 0 0, up = vec 0 1 0,
                              forward = vec 0 0 (- 1)\<rparr> (vec 0 0 (- 101 / 2)) ratio
                  = vec 0 0 (- 101 / 2)" for ratio
    by (simp add: snapCenter_def snap_def vdot_def vadd_def vmulScalar_def vec_def Let_def)
  show "node (snd (positionShadowCamera exampleEnv singleCascadeLight 0 st shadowCam))
     = exampleNode\<lparr>position := vec 0 0 (1999899 / 2)\<rparr>"
    unfolding positionShadowCamera_def Let_def env dists example_frustumCenter snapped
    by (simp add: translateLocal_def exampleNode_def vadd_def vmulScalar_def vec_def)
  show "nearClip (snd (positionShadowCamera exampleEnv singleCascadeLight 0 st shadowCam)) = 0"
    by (rule positionShadowCamera_clip)
qed

text \<open>
  One iteration of the cascade loop of \<^verbatim>\<open>cullDirectional\<close>, for a cascade whose list
  of visible casters is not empty after the culling, while the search of
  \<^verbatim>\<open>getDepthRange\<close> is not cut short by the values it starts from: the module's
  \<^verbatim>\<open>visibleSceneAabb\<close> becomes the union of the casters' boxes; the minimum and the
  maximum Z of its eight corners in the space of the shadow camera, as the first half of
  the loop body has positioned it, are taken; the camera's node is moved along its local
  Z axis by \<open>max + 0.1\<close> and the far clip is set to \<open>max - min + 0.2\<close>. The near clip
  is 0, and with a unit forward axis every corner of the box then has a depth between
  \<open>near + 0.1\<close> and \<open>far - 0.1\<close>, and both bounds are attained.
\<close>

lemma cullCascade_depth_range:
  assumes run: "cullCascade env l cascade (st, drawCalls, renderData) = (st', drawCalls', renderData')"
      and ne: "visibleCasters (renderData' cascade) \<noteq> []"
      and unit: "vdot (shadowForward env) (shadowForward env) = 1"
      and lo: "Min (set (cornerDepths (node (positionedCamera env l cascade st renderData))
                           (unionAabb (visibleCasters (renderData' cascade)))))
                 \<le> 9999999999"
      and hi: "- 9999999999
                 \<le> Max (set (cornerDepths (node (positionedCamera env l cascade st renderData))
                                (unionAabb (visibleCasters (renderData' cascade)))))"
  shows "visibleSceneAabb st' = unionAabb (visibleCasters (renderData' cascade))
       \<and> node (shadowCamera (renderData' cascade))
           = translateLocal (node (positionedCamera env l cascade st renderData)) 0 0
               (Max (set (cornerDepths (node (positionedCamera env l cascade st renderData))
                            (unionAabb (visibleCasters (renderData' cascade))))) + 0.1)
       \<and> farClip (shadowCamera (renderData' cascade))
           = Max (set (cornerDepths (node (positionedCamera env l cascade st renderData))
                         (unionAabb (visibleCasters (renderData' cascade)))))
             - Min (set (cornerDepths (node (positionedCamera env l cascade st renderData))
                           (unionAabb (visibleCasters (renderData' cascade))))) + 0.2
       \<and> nearClip (shadowCamera (renderData' cascade)) = 0
       \<and> (\<forall>p \<in> set (aabbPoints (getMin (unionAabb (visibleCasters (renderData' cascade))))
                                (getMax (unionAabb (visibleCasters (renderData' cascade))))).
             nearClip (shadowCamera (renderData' cascade)) + 0.1
               \<le> - vz (worldToLocal (node (shadowCamera (renderData' cascade))) p)
           \<and> - vz (worldToLocal (node (shadowCamera (renderData' cascade))) p)
               \<le> farClip (shadowCamera (renderData' cascade)) - 0.1)
       \<and> (\<exists>p \<in> set (aabbPoints (getMin (unionAabb (visibleCasters (renderData' cascade))))
                                (getMax (unionAabb (visibleCasters (renderData' cascade))))).
             - vz (worldToLocal (node (shadowCamera (renderData' cascade))) p)
               = nearClip (shadowCamera (renderData' cascade)) + 0.1)
       \<and> (\<exists>p \<in> set (aabbPoints (getMin (unionAabb (visibleCasters (renderData' cascade))))
                                (getMax (unionAabb (visibleCasters (renderData' cascade))))).
             - vz (worldToLocal (node (shadowCamera (renderData' cascade))) p)
               = farClip (shadowCamera (renderData' cascade)) - 0.1)"
proof -
  define p where "p = positionShadowCamera env l cascade st (shadowCamera (renderData cascade))"
  define c where "c = cullShadowCasters (isVisible env) drawCalls
                        (visibleCasters (renderData cascade)) (snd p)"
  define t where "t = tightenDepthRange (fst p) (snd p) (snd c)"
  have "cullCascade env l cascade (st, drawCalls, renderData)
          = (fst t, fst c, renderData(cascade := \<lparr>shadowCamera = snd t, visibleCasters = snd c\<rparr>))"
    unfolding cullCascade_unfold Let_def t_def c_def p_def ..
  with run have st': "st' = fst t"
    and rd: "renderData' = renderData(cascade := \<lparr>shadowCamera = snd t, visibleCasters = snd c\<rparr>)"
    by simp_all
  have cam: "shadowCamera (renderData' cascade) = snd t"
    and cs: "visibleCasters (renderData' cascade) = snd c"
    by (simp_all add: rd)
  have pc: "positionedCamera env l cascade st renderData = snd p"
    by (simp add: positionedCamera_def p_def)
  have h: "snd c \<noteq> []"
          "vdot (forward (node (snd p))) (forward (node (snd p))) = 1"
          "nearClip (snd p) = 0"
          "Min (set (cornerDepths (node (snd p)) (unionAabb (snd c)))) \<le> 9999999999"
          "- 9999999999 \<le> Max (set (cornerDepths (node (snd p)) (unionAabb (snd c))))"
    using ne unit lo hi unfolding cs pc p_def by (simp_all add: positionShadowCamera_clip)
  show ?thesis
    unfolding cam cs pc st' t_def by (rule tightenDepthRange_tight [OF h])
qed

lemma example_run:
  "cullCascade exampleEnv singleCascadeLight 0 (exampleState, [m], exampleRenderData)
     = (let cam1 = snd (positionShadowCamera exampleEnv singleCascadeLight 0 exampleState exampleCamera);
            t = tightenDepthRange 
                  (fst (positionShadowCamera exampleEnv singleCascadeLight 0 exampleState exampleCamera))
                  cam1 [markVisible m]
        in (fst t, [markVisible m],
            exampleRenderData(0 := \<lparr>shadowCamera = snd t, visibleCasters = [markVisible m]\<rparr>)))"
  if "\<not> cull m \<or> vy (getMin (aabb m)) \<le> 0"
proof -
  have vis: "isVisible exampleEnv m
               (snd (positionShadowCamera exampleEnv singleCascadeLight 0 exampleState exampleCamera))
             = (vy (getMin (aabb m)) \<le> 0)"
    by (simp add: exampleEnv_def [THEN arg_cong, of isVisible] example_positioned exampleNode_def vec_def)
  show ?thesis
    unfolding cullCascade_unfold Let_def
    using that vis
    by (simp add: cullShadowCasters_visible cullShadowCasters_instances exampleRenderData_def depthSort_single)
qed

lemma vec_sel: "vx (vec a b c) = a" "vy (vec a b c) = b" "vz (vec a b c) = c"
  by (simp_all add: vec_def)

lemma movedNode_depth:
  "vz (worldToLocal (exampleNode\<lparr>position := vec a b c\<rparr>) p) = vz p - c"
  by (simp add: worldToLocal_def exampleNode_def vdot_def vsub_def vec_def Let_def)

lemma movedNode_cornerDepths:
  "cornerDepths (exampleNode\<lparr>position := vec a b c\<rparr>) box
     = [vz (getMax box) - c, vz (getMax box) - c, vz (getMin box) - c, vz (getMin box) - c,
        vz (getMax box) - c, vz (getMax box) - c, vz (getMin box) - c, vz (getMin box) - c]"
  by (simp add: cornerDepths_def movedNode_depth aabbPoints_def vec_sel)

lemma example_box:
  "unionAabb [markVisible (caster c k lo hi)] = \<lparr>getMin = vec lo lo lo, getMax = vec hi hi hi\<rparr>"
  by (simp add: unionAabb_def caster_def markVisible_def vec_def)

lemma example_far_clip:
  "farClip (snd (tightenDepthRange st
             (snd (positionShadowCamera exampleEnv singleCascadeLight 0 exampleState exampleCamera))
             [markVisible (caster c k lo hi)]))
     = max (- 9999999999) (max (lo - 1999899 / 2) (hi - 1999899 / 2))
       - min 9999999999 (min (lo - 1999899 / 2) (hi - 1999899 / 2)) + 0.2"
proof -
  have ne: "[markVisible (caster c k lo hi)] \<noteq> []" by simp
  have zs: "set (cornerDepths (exampleNode\<lparr>position := vec 0 0 (1999899 / 2)\<rparr>)
                   (unionAabb [markVisible (caster c k lo hi)]))
              = {hi - 1999899 / 2, lo - 1999899 / 2}"
    unfolding movedNode_cornerDepths example_box by (auto simp add: vec_sel)
  show ?thesis
    unfolding tightenDepthRange_nonempty [OF ne] Let_def
    by (simp add: cornerDepths_range example_positioned zs min.commute max.commute)
qed

lemma movedNode_Max_Min:
  assumes "lo \<le> hi"
  shows "Max (set (cornerDepths (exampleNode\<lparr>position := vec a b c\<rparr>)
                     (unionAabb [markVisible (caster cl k lo hi)]))) = hi - c"
    and "Min (set (cornerDepths (exampleNode\<lparr>position := vec a b c\<rparr>)
                     (unionAabb [markVisible (caster cl k lo hi)]))) = lo - c"
proof -
  have zs: "set (cornerDepths (exampleNode\<lparr>position := vec a b c\<rparr>)
                   (unionAabb [markVisible (caster cl k lo hi)]))
              = {hi - c, lo - c}"
    unfolding movedNode_cornerDepths example_box by (auto simp add: vec_sel)
  show "Max (set (cornerDepths (exampleNode\<lparr>position := vec a b c\<rparr>)
                     (unionAabb [markVisible (caster cl k lo hi)]))) = hi - c"
    unfolding zs using assms by simp
  show "Min (set (cornerDepths (exampleNode\<lparr>position := vec a b c\<rparr>)
                     (unionAabb [markVisible (caster cl k lo hi)]))) = lo - c"
    unfolding zs using assms by simp
qed

text \<open>
  C3: the loop does not always set the far clip to \<open>max - min + 0.2\<close>. The comments of
  the source say what the claim says (\<^verbatim>\<open>getDepthRange\<close>:
  \<^verbatim>\<open>evaluate depth range the aabb takes in the space of the camera\<close>; the loop:
  \<^verbatim>\<open>adjust shadow camera's near and far plane to the depth range of casters\<close>), but
  \<^verbatim>\<open>getDepthRange\<close> starts its search from \<open>minz = 9999999999\<close> and \<open>maxz = -9999999999\<close>, and a depth beyond these values is not
  found. A light with one cascade, a camera with near clip 1 and shadow distance 100:
  the shadow camera is positioned at Z = 999949.5. For a non-culling caster whose box
  spans \<open>[30000000000, 30000000001]\<close> the list of visible casters is not empty, the
  depths of the corners are 29999000050.5 and 29999000051.5, the minimum returned is
  9999999999, and the far clip is 19999000052.7 where \<open>max - min + 0.2\<close> is 1.2.
\<close>

theorem far_caster_depth_range_not_tight:
  "visibleCasters
     ((snd (snd (cullCascade exampleEnv singleCascadeLight 0
                   (exampleState, [caster False 0 30000000000 30000000001], exampleRenderData)))) 0)
     = [markVisible (caster False 0 30000000000 30000000001)]
   \<and> farClip (shadowCamera
        ((snd (snd (cullCascade exampleEnv singleCascadeLight 0
                      (exampleState, [caster False 0 30000000000 30000000001], exampleRenderData)))) 0))
       = 199990000527 / 10
   \<and> Max (set (cornerDepths
                  (node (positionedCamera exampleEnv singleCascadeLight 0 exampleState exampleRenderData))
                  (unionAabb [markVisible (caster False 0 30000000000 30000000001)])))
       - Min (set (cornerDepths
                  (node (positionedCamera exampleEnv singleCascadeLight 0 exampleState exampleRenderData))
                  (unionAabb [markVisible (caster False 0 30000000000 30000000001)])))
       + 0.2 = 6 / 5"
proof -
  have m: "\<not> cull (caster False 0 30000000000 30000000001)
             \<or> vy (getMin (aabb (caster False 0 30000000000 30000000001))) \<le> 0"
    by (simp add: caster_def)
  have pc: "node (positionedCamera exampleEnv singleCascadeLight 0 exampleState exampleRenderData)
              = exampleNode\<lparr>position := vec 0 0 (1999899 / 2)\<rparr>"
    by (simp add: positionedCamera_def example_positioned exampleRenderData_def)
  have far: "farClip (snd (tightenDepthRange st
                 (snd (positionShadowCamera exampleEnv singleCascadeLight 0 exampleState exampleCamera))
                 [markVisible (caster False 0 30000000000 30000000001)])) = 199990000527 / 10" for st
    unfolding example_far_clip by simp
  have a: "visibleCasters
     ((snd (snd (cullCascade exampleEnv singleCascadeLight 0
                   (exampleState, [caster False 0 30000000000 30000000001], exampleRenderData)))) 0)
     = [markVisible (caster False 0 30000000000 30000000001)]"
    unfolding example_run [OF m] Let_def by simp
  have b: "farClip (shadowCamera
        ((snd (snd (cullCascade exampleEnv singleCascadeLight 0
                      (exampleState, [caster False 0 30000000000 30000000001], exampleRenderData)))) 0))
       = 199990000527 / 10"
    unfolding example_run [OF m] Let_def using far by simp
  have c: "Max (set (cornerDepths
                  (node (positionedCamera exampleEnv singleCascadeLight 0 exampleState exampleRenderData))
                  (unionAabb [markVisible (caster False 0 30000000000 30000000001)])))
       - Min (set (cornerDepths
                  (node (positionedCamera exampleEnv singleCascadeLight 0 exampleState exampleRenderData))
                  (unionAabb [markVisible (caster False 0 30000000000 30000000001)])))
       + 0.2 = 6 / 5"
    unfolding pc movedNode_cornerDepths example_box by (simp add: vec_sel)
  show ?thesis using a b c by (intro conjI)
qed

text \<open>
  The same cascade with a culling caster in the frustum, whose box spans \<open>[-5, -1]\<close>:
  the far clip is \<open>4 + 0.2\<close> and the camera ends at Z = -0.9, 0.1 in front of the box.
\<close>

lemma cullCascade_depth_range_example:
  "visibleSceneAabb
     (fst (cullCascade exampleEnv singleCascadeLight 0
             (exampleState, [caster True 0 (- 5) (- 1)], exampleRenderData)))
     = \<lparr>getMin = vec (- 5) (- 5) (- 5), getMax = vec (- 1) (- 1) (- 1)\<rparr>
   \<and> farClip (shadowCamera
        ((snd (snd (cullCascade exampleEnv singleCascadeLight 0
                      (exampleState, [caster True 0 (- 5) (- 1)], exampleRenderData)))) 0)) = 42 / 10
   \<and> node (shadowCamera
        ((snd (snd (cullCascade exampleEnv singleCascadeLight 0
                      (exampleState, [caster True 0 (- 5) (- 1)], exampleRenderData)))) 0))
       = exampleNode\<lparr>position := vec 0 0 (- 9 / 10)\<rparr>"
proof -
  define s where "s = cullCascade exampleEnv singleCascadeLight 0
                        (exampleState, [caster True 0 (- 5) (- 1)], exampleRenderData)"
  have m: "\<not> cull (caster True 0 (- 5) (- 1)) \<or> vy (getMin (aabb (caster True 0 (- 5) (- 1)))) \<le> 0"
    by (simp add: caster_def vec_sel)
  have cs: "visibleCasters ((snd (snd s)) 0) = [markVisible (caster True 0 (- 5) (- 1))]"
    unfolding s_def example_run [OF m] Let_def by simp
  have pc: "node (positionedCamera exampleEnv singleCascadeLight 0 exampleState exampleRenderData)
              = exampleNode\<lparr>position := vec 0 0 (1999899 / 2)\<rparr>"
    by (simp add: positionedCamera_def example_positioned exampleRenderData_def)
  have le: "(- 5 :: real) \<le> - 1" by simp
  note mm = movedNode_Max_Min [OF le]
  have h1: "cullCascade exampleEnv singleCascadeLight 0
             (exampleState, [caster True 0 (- 5) (- 1)], exampleRenderData)
             = (fst s, fst (snd s), snd (snd s))"
    by (simp add: s_def)
  have h2: "visibleCasters ((snd (snd s)) 0) \<noteq> []"
    unfolding cs by simp
  have h3: "vdot (shadowForward exampleEnv) (shadowForward exampleEnv) = 1"
    by (simp add: exampleEnv_def vdot_def vec_sel)
  have h4: "Min (set (cornerDepths
                       (node (positionedCamera exampleEnv singleCascadeLight 0 exampleState exampleRenderData))
                       (unionAabb (visibleCasters ((snd (snd s)) 0))))) \<le> 9999999999"
    unfolding cs pc mm by simp
  have h5: "- 9999999999
             \<le> Max (set (cornerDepths
                       (node (positionedCamera exampleEnv singleCascadeLight 0 exampleState exampleRenderData))
                       (unionAabb (visibleCasters ((snd (snd s)) 0)))))"
    unfolding cs pc mm by simp
  have tr: "translateLocal (exampleNode\<lparr>position := vec 0 0 (1999899 / 2)\<rparr>) 0 0 (- 1 - 1999899 / 2 + 0.1)
              = exampleNode\<lparr>position := vec 0 0 (- 9 / 10)\<rparr>"
    by (simp add: translateLocal_def exampleNode_def vadd_def vmulScalar_def vec_def)
  note t = cullCascade_depth_range [OF h1 h2 h3 h4 h5]
  have a: "visibleSceneAabb (fst s)
             = \<lparr>getMin = vec (- 5) (- 5) (- 5), getMax = vec (- 1) (- 1) (- 1)\<rparr>"
    using t [THEN conjunct1] unfolding cs example_box .
  have b: "farClip (shadowCamera ((snd (snd s)) 0)) = 42 / 10"
    using t [THEN conjunct2, THEN conjunct2, THEN conjunct1] unfolding cs pc mm by simp
  have c: "node (shadowCamera ((snd (snd s)) 0)) = exampleNode\<lparr>position := vec 0 0 (- 9 / 10)\<rparr>"
    using t [THEN conjunct2, THEN conjunct1] unfolding cs pc mm tr .
  show ?thesis
    using a b c unfolding s_def by (intro conjI)
qed
section \<open>Two runs of cullDirectional\<close>



















































end
